theory Spec2Isabelle
  imports Complex_Main
begin

section \<open>train.py: the MNIST factorization-machines demonstration script\<close>

text \<open>
  The script is one linear sequence of statements. Its own computations (label
  binarisation, the request serialiser, the chunked prediction loop, the string
  templates) are translated statement by statement. The numpy, os.path and pandas
  functions it calls are written out from their documented behaviour. Python floats
  are modelled as \<^typ>\<open>real\<close>, Python and numpy integers as \<^typ>\<open>int\<close>, arrays as lists
  (a matrix as a list of rows) and raised exceptions as the left summand of a sum type.
\<close>

datatype exn = IndexError | KeyError | TypeError | ValueError | ServiceError string

subsection \<open>numpy: where, array, array\_split\<close>

text \<open>\<^verbatim>\<open>np.where(cond, x, y)\<close> with scalar \<open>x\<close> and \<open>y\<close>: elementwise choice.\<close>

definition np_where :: "bool list \<Rightarrow> 'a \<Rightarrow> 'a \<Rightarrow> 'a list" where
  "np_where cond x y = map (\<lambda>c. if c then x else y) cond"

text \<open>\<^verbatim>\<open>arr == 0\<close> on an integer array: the elementwise comparison.\<close>

definition eq_zero :: "int list \<Rightarrow> bool list" where
  "eq_zero arr = map (\<lambda>v. v = 0) arr"

text \<open>
  \<^verbatim>\<open>np.array(rows)\<close> on a list of lists is a matrix when all rows have one length;
  a ragged list has no float32 matrix and line 36 raises ValueError.
\<close>

definition np_array :: "'a list list \<Rightarrow> exn + 'a list list" where
  "np_array rows =
     (if \<exists>r \<in> set rows. length r \<noteq> length (hd rows) then Inl ValueError else Inr rows)"

text \<open>The slice \<^verbatim>\<open>a[st:end]\<close> for \<open>0 \<le> st\<close>.\<close>

definition slice :: "'a list \<Rightarrow> nat \<Rightarrow> nat \<Rightarrow> 'a list" where
  "slice a st en = take (en - st) (drop st a)"

fun cumsum_from :: "nat \<Rightarrow> nat list \<Rightarrow> nat list" where
  "cumsum_from acc [] = []"
| "cumsum_from acc (x # xs) = (acc + x) # cumsum_from (acc + x) xs"

definition cumsum :: "nat list \<Rightarrow> nat list" where
  "cumsum xs = cumsum_from 0 xs"

text \<open>
  \<^verbatim>\<open>np.array_split(ary, Nsections)\<close> with an integer section count, along axis 0:
  \<^verbatim>\<open>
  Neach_section, extras = divmod(Ntotal, Nsections)
  section_sizes = [0] + extras * [Neach_section+1] + (Nsections-extras) * [Neach_section]
  div_points = array(section_sizes).cumsum()
  for i in range(Nsections): sub_arys.append(ary[div_points[i]:div_points[i + 1]])
  \<close>
  A section count of 0 raises ValueError. \<open>section_sizes\<close> below is that list without
  its leading 0, which \<open>array_split\<close> puts in front before taking the running sums.
\<close>

definition section_sizes :: "nat \<Rightarrow> nat \<Rightarrow> nat list" where
  "section_sizes Ntotal Nsections =
     (let Neach_section = Ntotal div Nsections; extras = Ntotal mod Nsections
      in replicate extras (Neach_section + 1) @ replicate (Nsections - extras) Neach_section)"

definition array_split :: "'a list \<Rightarrow> nat \<Rightarrow> exn + 'a list list" where
  "array_split ary Nsections =
     (if Nsections = 0 then Inl ValueError
      else let div_points = cumsum ([0] @ section_sizes (length ary) Nsections)
           in Inr (map (\<lambda>i. slice ary (div_points ! i) (div_points ! (i + 1))) [0..<Nsections]))"

subsection \<open>numpy: the cast to float32\<close>

text \<open>
  \<^verbatim>\<open>a.astype('float32')\<close> rounds each element to IEEE 754 binary32 (round to nearest, ties
  to even). A finite binary32 number is \<open>m * 2 ^ e\<close> with integers \<open>\<bar>m\<bar> < 2 ^ 24\<close> and
  \<open>-149 \<le> e \<le> 104\<close>; a number whose rounding exceeds the largest of them becomes an
  infinity of its sign (True is the positive one).
\<close>

datatype float32 = F32 real | F32_inf bool

text \<open>Rounding to the nearest integer, a tie to the even one.\<close>

definition round_half_even :: "real \<Rightarrow> int" where
  "round_half_even y =
     (let f = \<lfloor>y\<rfloor>; d = y - of_int f
      in if d < 1 / 2 then f else if 1 / 2 < d then f + 1 else if even f then f else f + 1)"

text \<open>
  The exponent of the last place of the binary32 numbers around \<open>x\<close>: 23 below the
  exponent of \<open>x\<close> itself, and -149 in the subnormal range.
\<close>

definition float32_exponent :: "real \<Rightarrow> int" where
  "float32_exponent x = max (- 149) (\<lfloor>log 2 \<bar>x\<bar>\<rfloor> - 23)"

definition float32_round :: "real \<Rightarrow> real" where
  "float32_round x =
     (if x = 0 then 0
      else of_int (round_half_even (x / 2 powr of_int (float32_exponent x)))
             * 2 powr of_int (float32_exponent x))"

text \<open>The largest finite binary32 number.\<close>

definition float32_max :: real where
  "float32_max = (2 ^ 24 - 1) * 2 ^ 104"

definition astype_float32 :: "real \<Rightarrow> float32" where
  "astype_float32 x =
     (if float32_max < \<bar>float32_round x\<bar> then F32_inf (0 < x) else F32 (float32_round x))"

subsection \<open>Label binarisation (lines 37 and 110)\<close>

text \<open>
  Line 37: \<^verbatim>\<open>labels = np.where(np.array([t.tolist() for t in train_set[1]]) == 0, 1.0, 0.0).astype('float32')\<close>.
  The two values 1.0 and 0.0 are float32 values, so the final cast leaves them as they are.
\<close>

definition labels :: "int list \<Rightarrow> real list" where
  "labels train_labels = np_where (eq_zero train_labels) 1 0"

text \<open>Line 110, first argument: \<^verbatim>\<open>np.where(test_set[1] == 0, 1, 0)\<close>.\<close>

definition actuals :: "int list \<Rightarrow> int list" where
  "actuals test_labels = np_where (eq_zero test_labels) 1 0"

subsection \<open>Python indexing, reshape and str\<close>

text \<open>\<^verbatim>\<open>xs[i]\<close> for a constant index \<open>i \<ge> 0\<close>: IndexError out of range.\<close>

definition item :: "'a list \<Rightarrow> nat \<Rightarrow> exn + 'a" where
  "item xs i = (if i < length xs then Inr (xs ! i) else Inl IndexError)"

text \<open>\<^verbatim>\<open>a.reshape((r, c))\<close> on a vector: ValueError unless it has \<open>r * c\<close> elements.\<close>

definition reshape :: "'a list \<Rightarrow> nat \<Rightarrow> nat \<Rightarrow> exn + 'a list list" where
  "reshape a r c =
     (if length a \<noteq> r * c then Inl ValueError
      else Inr (map (\<lambda>i. slice a (i * c) (i * c + c)) [0..<r]))"

text \<open>\<^verbatim>\<open>str\<close> of an integer: its decimal digits.\<close>

fun str_nat :: "nat \<Rightarrow> string" where
  "str_nat n =
     (if n < 10 then [char_of (48 + n)] else str_nat (n div 10) @ [char_of (48 + n mod 10)])"

declare str_nat.simps [simp del]

definition str_int :: "int \<Rightarrow> string" where
  "str_int i = (if i < 0 then ''-'' @ str_nat (nat (- i)) else str_nat (nat i))"

subsection \<open>os.path.join and the string templates (lines 48, 49 and 53)\<close>

text \<open>
  \<^verbatim>\<open>os.path\<close> is the module \<^verbatim>\<open>posixpath\<close> on POSIX systems and \<^verbatim>\<open>ntpath\<close> on Windows, so
  what line 48 computes depends on the system the script runs on.
\<close>

datatype os_kind = Posix | Nt

text \<open>
  \<^verbatim>\<open>posixpath.join(a, *p)\<close>:
  \<^verbatim>\<open>
  path = a
  for b in p:
      if b.startswith(sep): path = b
      elif not path or path.endswith(sep): path += b
      else: path += sep + b
  \<close>
\<close>

definition join_step :: "string \<Rightarrow> string \<Rightarrow> string" where
  "join_step path b =
     (if b \<noteq> [] \<and> hd b = CHR ''/'' then b
      else if path = [] \<or> last path = CHR ''/'' then path @ b
      else path @ ''/'' @ b)"

definition posixpath_join :: "string \<Rightarrow> string list \<Rightarrow> string" where
  "posixpath_join a p = foldl join_step a p"

text \<open>
  \<^verbatim>\<open>ntpath\<close>, as in CPython 3.11, on strings of ASCII characters. The separator is the
  backslash (character 0x5C), the alternative separator the slash.
\<close>

definition nt_sep :: char where
  "nt_sep = CHR 0x5C"

definition nt_seps :: "char set" where
  "nt_seps = {nt_sep, CHR ''/''}"

text \<open>\<^verbatim>\<open>s.find(c, start)\<close>: the first index from \<open>start\<close> on that holds \<open>c\<close>, if there is one.\<close>

definition str_find :: "string \<Rightarrow> char \<Rightarrow> nat \<Rightarrow> nat option" where
  "str_find s c start =
     (case filter (\<lambda>i. s ! i = c) [start..<length s] of [] \<Rightarrow> None | i # _ \<Rightarrow> Some i)"

definition ascii_upper :: "char \<Rightarrow> char" where
  "ascii_upper c =
     (let n = (of_char c :: nat) in if 97 \<le> n \<and> n \<le> 122 then char_of (n - 32) else c)"

definition ascii_lower :: "char \<Rightarrow> char" where
  "ascii_lower c =
     (let n = (of_char c :: nat) in if 65 \<le> n \<and> n \<le> 90 then char_of (n + 32) else c)"

text \<open>
  \<^verbatim>\<open>ntpath.splitdrive(p)\<close>:
  \<^verbatim>\<open>
  if len(p) >= 2:
      normp = p.replace(altsep, sep)
      if normp[0:2] == sep * 2:
          start = 8 if normp[:8].upper() == unc_prefix else 2
          index = normp.find(sep, start)
          if index == -1: return p, p[:0]
          index2 = normp.find(sep, index + 1)
          if index2 == -1: return p, p[:0]
          return p[:index2], p[index2:]
      if normp[1:2] == colon: return p[:2], p[2:]
  return p[:0], p
  \<close>
  where \<open>unc_prefix\<close> is the eight characters of the prefix of long UNC paths.
\<close>

definition unc_prefix :: string where
  "unc_prefix = [nt_sep, nt_sep, CHR ''?'', nt_sep, CHR ''U'', CHR ''N'', CHR ''C'', nt_sep]"

definition ntpath_splitdrive :: "string \<Rightarrow> string \<times> string" where
  "ntpath_splitdrive p =
     (if 2 \<le> length p then
        (let normp = map (\<lambda>c. if c = CHR ''/'' then nt_sep else c) p in
         if take 2 normp = [nt_sep, nt_sep] then
           (let start = (if map ascii_upper (take 8 normp) = unc_prefix then 8 else 2) in
            case str_find normp nt_sep start of
              None \<Rightarrow> (p, [])
            | Some index \<Rightarrow>
                (case str_find normp nt_sep (index + 1) of
                   None \<Rightarrow> (p, [])
                 | Some index2 \<Rightarrow> (take index2 p, drop index2 p)))
         else if take 1 (drop 1 normp) = '':'' then (take 2 p, drop 2 p)
         else ([], p))
      else ([], p))"

text \<open>
  \<^verbatim>\<open>ntpath.join(path, *paths)\<close>, one round of its loop on the pair
  \<open>(result_drive, result_path)\<close>:
  \<^verbatim>\<open>
  p_drive, p_path = splitdrive(p)
  if p_path and p_path[0] in seps:
      if p_drive or not result_drive: result_drive = p_drive
      result_path = p_path
      continue
  elif p_drive and p_drive != result_drive:
      if p_drive.lower() != result_drive.lower():
          result_drive = p_drive
          result_path = p_path
          continue
      result_drive = p_drive
  if result_path and result_path[-1] not in seps: result_path = result_path + sep
  result_path = result_path + p_path
  \<close>
\<close>

definition nt_relative :: "string \<times> string \<Rightarrow> string \<Rightarrow> string \<times> string" where
  "nt_relative result p_path =
     (case result of (result_drive, result_path) \<Rightarrow>
        (result_drive,
         (if result_path \<noteq> [] \<and> last result_path \<notin> nt_seps then result_path @ [nt_sep]
          else result_path) @ p_path))"

definition nt_join_step :: "string \<times> string \<Rightarrow> string \<Rightarrow> string \<times> string" where
  "nt_join_step result p =
     (case result of (result_drive, result_path) \<Rightarrow>
      case ntpath_splitdrive p of (p_drive, p_path) \<Rightarrow>
        if p_path \<noteq> [] \<and> hd p_path \<in> nt_seps then
          ((if p_drive \<noteq> [] \<or> result_drive = [] then p_drive else result_drive), p_path)
        else if p_drive \<noteq> [] \<and> p_drive \<noteq> result_drive then
          (if map ascii_lower p_drive \<noteq> map ascii_lower result_drive then (p_drive, p_path)
           else nt_relative (p_drive, result_path) p_path)
        else nt_relative (result_drive, result_path) p_path)"

text \<open>
  After the loop a separator is put between a UNC drive and a relative path:
  \<^verbatim>\<open>
  if (result_path and result_path[0] not in seps and
      result_drive and result_drive[-1:] != colon):
      return result_drive + sep + result_path
  return result_drive + result_path
  \<close>
\<close>

definition ntpath_join :: "string \<Rightarrow> string list \<Rightarrow> string" where
  "ntpath_join path paths =
     (case foldl nt_join_step (ntpath_splitdrive path) paths of (result_drive, result_path) \<Rightarrow>
        if result_path \<noteq> [] \<and> hd result_path \<notin> nt_seps
           \<and> result_drive \<noteq> [] \<and> last result_drive \<noteq> CHR '':''
        then result_drive @ [nt_sep] @ result_path
        else result_drive @ result_path)"

definition os_path_join :: "os_kind \<Rightarrow> string \<Rightarrow> string list \<Rightarrow> string" where
  "os_path_join os a p = (case os of Posix \<Rightarrow> posixpath_join a p | Nt \<Rightarrow> ntpath_join a p)"

text \<open>Line 48: the key of the object written, \<^verbatim>\<open>os.path.join(prefix, 'train', key)\<close>.\<close>

definition object_key :: "os_kind \<Rightarrow> string \<Rightarrow> string \<Rightarrow> string" where
  "object_key os p k = os_path_join os p [''train'', k]"

text \<open>Line 49: \<^verbatim>\<open>'s3://{}/{}/train/{}'.format(bucket, prefix, key)\<close>.\<close>

definition s3_train_data :: "string \<Rightarrow> string \<Rightarrow> string \<Rightarrow> string" where
  "s3_train_data b p k = ''s3://'' @ b @ ''/'' @ p @ ''/train/'' @ k"

text \<open>Line 53: \<^verbatim>\<open>'s3://{}/{}/output'.format(bucket, prefix)\<close>.\<close>

definition output_location :: "string \<Rightarrow> string \<Rightarrow> string" where
  "output_location b p = ''s3://'' @ b @ ''/'' @ p @ ''/output''"

text \<open>The module-level constants of lines 1, 2, 9 and 47.\<close>

definition bucket :: string where
  "bucket = ''localide''"

definition prefix :: string where
  "prefix = ''sagemaker/DEMO-1''"

definition role :: string where
  "role = ''arn:aws:iam::604327226618:role/service-role/AirflowSageMakerExecutionRole''"

definition key :: string where
  "key = ''recordio-pb-data''"

subsection \<open>JSON values and the request serialiser (lines 84 to 88)\<close>

text \<open>
  The Python objects that \<^verbatim>\<open>json.dumps\<close> takes and the deserialiser returns. A dict is an
  association list read with \<^const>\<open>map_of\<close>.
\<close>

datatype json =
    JNull
  | JBool bool
  | JNum real
  | JStr string
  | JArr "json list"
  | JObj "(string \<times> json) list"

text \<open>\<^verbatim>\<open>row.tolist()\<close>: the row's numbers as a list.\<close>

definition tolist :: "real list \<Rightarrow> json" where
  "tolist row = JArr (map JNum row)"

text \<open>
  The loop of lines 86 and 87, with \<open>instances\<close> the list \<^verbatim>\<open>js['instances']\<close> built so far.
\<close>

fun fm_instances :: "real list list \<Rightarrow> json list \<Rightarrow> json list" where
  "fm_instances [] instances = instances"
| "fm_instances (row # data) instances =
     fm_instances data (instances @ [JObj [(''features'', tolist row)]])"

text \<open>\<open>fm_serializer\<close> (lines 84 to 88); \<open>dumps\<close> is \<^verbatim>\<open>json.dumps\<close>.\<close>

definition fm_serializer :: "(json \<Rightarrow> string) \<Rightarrow> real list list \<Rightarrow> string" where
  "fm_serializer dumps data = dumps (JObj [(''instances'', JArr (fm_instances data []))])"

subsection \<open>Reading the predictions (line 103)\<close>

text \<open>
  \<^verbatim>\<open>obj[k]\<close> with a string key: a dict looks the key up (KeyError when absent), every other
  value raises TypeError.
\<close>

fun getitem :: "json \<Rightarrow> string \<Rightarrow> exn + json" where
  "getitem (JObj kv) k = (case map_of kv k of None \<Rightarrow> Inl KeyError | Some v \<Rightarrow> Inr v)"
| "getitem _ k = Inl TypeError"

text \<open>
  \<^verbatim>\<open>for r in obj\<close>: a list gives its items, a dict its keys, a string its characters,
  every other value raises TypeError.
\<close>

fun iter :: "json \<Rightarrow> exn + json list" where
  "iter (JArr xs) = Inr xs"
| "iter (JObj kv) = Inr (map JStr (remdups (map fst kv)))"
| "iter (JStr s) = Inr (map (\<lambda>c. JStr [c]) s)"
| "iter _ = Inl TypeError"

text \<open>A list comprehension \<^verbatim>\<open>[f(r) for r in rs]\<close>: the first exception ends it.\<close>

fun comprehension :: "('a \<Rightarrow> exn + 'b) \<Rightarrow> 'a list \<Rightarrow> exn + 'b list" where
  "comprehension f [] = Inr []"
| "comprehension f (r # rs) =
     (case f r of
        Inl e \<Rightarrow> Inl e
      | Inr y \<Rightarrow> (case comprehension f rs of Inl e \<Rightarrow> Inl e | Inr ys \<Rightarrow> Inr (y # ys)))"

text \<open>Line 103: \<^verbatim>\<open>[r['predicted_label'] for r in result['predictions']]\<close>.\<close>

definition predicted_labels :: "json \<Rightarrow> exn + json list" where
  "predicted_labels result =
     (case getitem result ''predictions'' of
        Inl e \<Rightarrow> Inl e
      | Inr ps \<Rightarrow>
          (case iter ps of
             Inl e \<Rightarrow> Inl e
           | Inr rs \<Rightarrow> comprehension (\<lambda>r. getitem r ''predicted_label'') rs))"

subsection \<open>pandas: crosstab (line 110)\<close>

text \<open>
  \<^verbatim>\<open>pd.crosstab(index, columns)\<close> on two arrays: the frequency table of the pairs
  \<open>(index[i], columns[i])\<close>. Its row labels are the distinct values of \<open>index\<close>, its column
  labels the distinct values of \<open>columns\<close>, and arrays of different lengths raise
  ValueError. The table is kept as the two label sets and the cell function; the
  order in which pandas prints the labels is not modelled.
\<close>

record ('a, 'b) table =
  index :: "'a set"
  columns :: "'b set"
  cell :: "'a \<Rightarrow> 'b \<Rightarrow> nat"

definition crosstab :: "'a list \<Rightarrow> 'b list \<Rightarrow> exn + ('a, 'b) table" where
  "crosstab idx cols =
     (if length idx \<noteq> length cols then Inl ValueError
      else Inr \<lparr>index = set idx, columns = set cols,
                cell = (\<lambda>a p. count_list (zip idx cols) (a, p))\<rparr>)"

text \<open>The sum of all cells of a table.\<close>

definition cell_total :: "('a, 'b) table \<Rightarrow> nat" where
  "cell_total t = (\<Sum>a \<in> index t. \<Sum>p \<in> columns t. cell t a p)"

subsection \<open>The libraries and services outside the script\<close>

type_synonym matrix = "real list list"

text \<open>A split is the pair \<open>(features, labels)\<close>; the pickle holds three of them.\<close>

type_synonym split = "matrix \<times> int list"

type_synonym dataset = "split \<times> split \<times> split"

datatype hp = HInt int | HStr string

text \<open>The fields of \<^verbatim>\<open>sagemaker.estimator.Estimator\<close> that the script sets (lines 64 to 73).\<close>

record estimator =
  image :: string
  role_arn :: string
  train_instance_count :: nat
  train_instance_type :: string
  output_path :: string
  hyperparameters :: "string \<rightharpoonup> hp"

text \<open>
  The calls the script makes to the outside, with their arguments: files and network
  (urllib, gzip and pickle), the display (matplotlib), the record serialiser of the SDK,
  S3, standard output, the SageMaker services and pandas.
\<close>

datatype event =
    Urlretrieve string string
  | PickleLoad string
  | Subplots nat nat
  | Axis string
  | Imshow matrix string
  | Title string
  | WriteTensor "float32 list list" "real list"
  | Upload string string string
  | Print string
  | PrintResult json
  | RegionName
  | GetImageUri string string
  | NewSession
  | Fit estimator "(string \<times> string) list"
  | Deploy estimator nat string
  | InvokeEndpoint string string string
  | Crosstab "int list" "json list"
  | DeleteEndpoint string

text \<open>
  The environment of one run. \<open>raises\<close> says whether a call raises, given the place of
  the call (source line and, inside the loop of line 101, the iteration) and the call;
  the other fields are what the calls return when they do not raise. \<open>os_name\<close> is the
  kind of system the script runs on.
\<close>

record env =
  raises :: "nat \<times> nat \<Rightarrow> event \<Rightarrow> exn option"
  os_name :: os_kind
  pickled :: dataset
  tensor_bytes :: "float32 list list \<Rightarrow> real list \<Rightarrow> string"
  region_name :: string
  image_uri :: "string \<Rightarrow> string \<Rightarrow> string"
  endpoint_name :: "estimator \<Rightarrow> string"
  response_body :: "nat \<times> nat \<Rightarrow> string \<Rightarrow> string \<Rightarrow> string \<Rightarrow> string"
  json_dumps :: "json \<Rightarrow> string"
  json_deserializer :: "string \<Rightarrow> exn + json"

subsection \<open>Runs: the calls made, then an exception or a value\<close>

text \<open>A fault is the line that raised and the exception; no statement of the script catches one.\<close>

type_synonym fault = "nat \<times> exn"

type_synonym 'a prog = "event list \<times> (fault + 'a)"

text \<open>Sequencing: a fault ends the run, and nothing after it is called.\<close>

definition andthen :: "'a prog \<Rightarrow> ('a \<Rightarrow> 'b prog) \<Rightarrow> 'b prog" where
  "andthen m f =
     (case m of
        (es, Inl e) \<Rightarrow> (es, Inl e)
      | (es, Inr x) \<Rightarrow> (case f x of (es', r) \<Rightarrow> (es @ es', r)))"

text \<open>A computation of the script itself or of numpy, on the given line.\<close>

definition lift :: "nat \<Rightarrow> exn + 'a \<Rightarrow> 'a prog" where
  "lift line r = (case r of Inl e \<Rightarrow> ([], Inl (line, e)) | Inr x \<Rightarrow> ([], Inr x))"

text \<open>A call to the outside: recorded, then it raises or returns \<open>result\<close>.\<close>

definition call :: "env \<Rightarrow> nat \<times> nat \<Rightarrow> event \<Rightarrow> 'a \<Rightarrow> 'a prog" where
  "call w site ev result =
     (case raises w site ev of
        Some e \<Rightarrow> ([ev], Inl (fst site, e))
      | None \<Rightarrow> ([ev], Inr result))"

subsection \<open>The statements of the script\<close>

text \<open>Lines 13 to 15: download the archive and unpickle the three splits.\<close>

definition load_dataset :: "env \<Rightarrow> dataset prog" where
  "load_dataset w =
     andthen (call w (13, 0) (Urlretrieve ''http://deeplearning.net/data/mnist/mnist.pkl.gz'' ''mnist.pkl.gz'') ()) (\<lambda>_.
     call w (15, 0) (PickleLoad ''mnist.pkl.gz'') (pickled w))"

text \<open>\<open>show_digit\<close> (lines 21 to 27), called with \<open>subplot\<close> left at None.\<close>

definition show_digit :: "env \<Rightarrow> real list \<Rightarrow> string \<Rightarrow> unit prog" where
  "show_digit w img caption =
     andthen (call w (23, 0) (Subplots 1 1) ()) (\<lambda>_.
     andthen (lift 24 (reshape img 28 28)) (\<lambda>imgr.
     andthen (call w (25, 0) (Axis ''off'') ()) (\<lambda>_.
     andthen (call w (26, 0) (Imshow imgr ''gray'') ()) (\<lambda>_.
     call w (27, 0) (Title caption) ()))))"

text \<open>Line 29: \<^verbatim>\<open>show_digit(train_set[0][30], 'This is a {}'.format(train_set[1][30]))\<close>.\<close>

definition show_sample :: "env \<Rightarrow> split \<Rightarrow> unit prog" where
  "show_sample w train_set =
     andthen (lift 29 (item (fst train_set) 30)) (\<lambda>img.
     andthen (lift 29 (item (snd train_set) 30)) (\<lambda>lbl.
     show_digit w img (''This is a '' @ str_int lbl)))"

text \<open>
  Line 36: \<^verbatim>\<open>vectors = np.array([t.tolist() for t in train_set[0]]).astype('float32')\<close>.
\<close>

definition vectors :: "matrix \<Rightarrow> exn + float32 list list" where
  "vectors train_x =
     (case np_array train_x of
        Inl e \<Rightarrow> Inl e
      | Inr a \<Rightarrow> Inr (map (map astype_float32) a))"

text \<open>
  Lines 36 to 50: encode the training split, write it as a record stream into the
  buffer, upload the buffer and print the locator.
\<close>

definition encode_upload :: "string \<Rightarrow> string \<Rightarrow> string \<Rightarrow> env \<Rightarrow> split \<Rightarrow> string prog" where
  "encode_upload b p k w train_set =
     andthen (lift 36 (vectors (fst train_set))) (\<lambda>vecs.
     andthen (call w (40, 0) (WriteTensor vecs (labels (snd train_set)))
                (tensor_bytes w vecs (labels (snd train_set)))) (\<lambda>buf.
     andthen (call w (48, 0) (Upload b (object_key (os_name w) p k) buf) ()) (\<lambda>_.
     andthen (call w (50, 0) (Print (''uploaded training data location: '' @ s3_train_data b p k)) ()) (\<lambda>_.
     ([], Inr (s3_train_data b p k))))))"

text \<open>\<^verbatim>\<open>Estimator.set_hyperparameters(**kwargs)\<close>: each keyword is stored in the estimator's dict.\<close>

definition set_hyperparameters :: "estimator \<Rightarrow> (string \<times> hp) list \<Rightarrow> estimator" where
  "set_hyperparameters est kwargs =
     est\<lparr>hyperparameters := foldl (\<lambda>d (name, v). d(name \<mapsto> v)) (hyperparameters est) kwargs\<rparr>"

text \<open>Lines 64 to 73: the estimator and its hyperparameters.\<close>

definition fm_estimator :: "string \<Rightarrow> string \<Rightarrow> estimator" where
  "fm_estimator container output =
     set_hyperparameters
       \<lparr>image = container, role_arn = role, train_instance_count = 1,
        train_instance_type = ''ml.c4.xlarge'', output_path = output,
        hyperparameters = Map.empty\<rparr>
       [(''feature_dim'', HInt 784), (''predictor_type'', HStr ''binary_classifier''),
        (''mini_batch_size'', HInt 200), (''num_factors'', HInt 10)]"

text \<open>Lines 53 to 75: configure the training job and run it on the uploaded data.\<close>

definition train :: "string \<Rightarrow> string \<Rightarrow> env \<Rightarrow> string \<Rightarrow> estimator prog" where
  "train b p w train_data =
     andthen (call w (54, 0) (Print (''training artifacts will be uploaded to: '' @ output_location b p)) ()) (\<lambda>_.
     andthen (call w (57, 0) RegionName (region_name w)) (\<lambda>region.
     andthen (call w (57, 0) (GetImageUri region ''factorization-machines'')
                (image_uri w region ''factorization-machines'')) (\<lambda>container.
     andthen (call w (62, 0) NewSession ()) (\<lambda>sess.
     andthen (call w (75, 0) (Fit (fm_estimator container (output_location b p)) [(''train'', train_data)]) ()) (\<lambda>_.
     ([], Inr (fm_estimator container (output_location b p))))))))"

text \<open>
  The endpoint handle. Its content type, serialiser and deserialiser are unset on the
  handle that \<open>deploy\<close> returns; lines 90 to 92 set them before the first \<open>predict\<close>.
\<close>

record predictor =
  endpoint :: string
  content_type :: string
  serializer :: "matrix \<Rightarrow> string"
  deserializer :: "string \<Rightarrow> exn + json"

text \<open>Lines 77 to 92: deploy the model and configure the handle.\<close>

definition deploy :: "env \<Rightarrow> estimator \<Rightarrow> predictor prog" where
  "deploy w fm =
     andthen (call w (77, 0) (Deploy fm 1 ''ml.m4.xlarge'') (endpoint_name w fm)) (\<lambda>ep.
     ([], Inr \<lparr>endpoint = ep, content_type = ''application/json'',
               serializer = fm_serializer (json_dumps w),
               deserializer = json_deserializer w\<rparr>))"

text \<open>
  \<^verbatim>\<open>predictor.predict(data)\<close>: serialise the rows, invoke the endpoint with the handle's
  content type, deserialise the response body.
\<close>

definition predict :: "env \<Rightarrow> nat \<times> nat \<Rightarrow> predictor \<Rightarrow> matrix \<Rightarrow> json prog" where
  "predict w site fm_predictor data =
     andthen (call w site
                (InvokeEndpoint (endpoint fm_predictor) (content_type fm_predictor)
                   (serializer fm_predictor data))
                (response_body w site (endpoint fm_predictor) (content_type fm_predictor)
                   (serializer fm_predictor data))) (\<lambda>body.
     lift (fst site) (deserializer fm_predictor body))"

text \<open>
  The loop of lines 101 to 103 over the chunks not yet sent, with the iteration number
  and the list \<open>predictions\<close> built so far; \<open>predict_chunk i\<close> is the call of line 102 in
  iteration \<open>i\<close>.
\<close>

fun predict_loop ::
  "(nat \<Rightarrow> matrix \<Rightarrow> json prog) \<Rightarrow> nat \<Rightarrow> matrix list \<Rightarrow> json list \<Rightarrow> json list prog" where
  "predict_loop predict_chunk i [] predictions = ([], Inr predictions)"
| "predict_loop predict_chunk i (array # arrays) predictions =
     andthen (predict_chunk i array) (\<lambda>result.
     andthen (lift 103 (predicted_labels result)) (\<lambda>new.
     predict_loop predict_chunk (Suc i) arrays (predictions @ new)))"

text \<open>Lines 94 to 110: one sample request, the chunked predictions, the confusion table.\<close>

definition evaluate :: "env \<Rightarrow> predictor \<Rightarrow> split \<Rightarrow> split \<Rightarrow> (int, json) table prog" where
  "evaluate w fm_predictor train_set test_set =
     andthen (predict w (94, 0) fm_predictor (slice (fst train_set) 30 31)) (\<lambda>result.
     andthen (call w (95, 0) (PrintResult result) ()) (\<lambda>_.
     andthen (lift 101 (array_split (fst test_set) 100)) (\<lambda>arrays.
     andthen (predict_loop (\<lambda>i. predict w (102, i) fm_predictor) 0 arrays []) (\<lambda>predictions.
     andthen (call w (110, 0) (Crosstab (actuals (snd test_set)) predictions) ()) (\<lambda>_.
     lift 110 (crosstab (actuals (snd test_set)) predictions))))))"

text \<open>Line 113: \<^verbatim>\<open>sagemaker.Session().delete_endpoint(fm_predictor.endpoint)\<close>.\<close>

definition teardown :: "env \<Rightarrow> predictor \<Rightarrow> unit prog" where
  "teardown w fm_predictor =
     andthen (call w (113, 0) NewSession ()) (\<lambda>_.
     call w (113, 0) (DeleteEndpoint (endpoint fm_predictor)) ())"

text \<open>The whole script, for any bucket, prefix and key.\<close>

definition script :: "string \<Rightarrow> string \<Rightarrow> string \<Rightarrow> env \<Rightarrow> unit prog" where
  "script b p k w =
     andthen (load_dataset w) (\<lambda>(train_set, valid_set, test_set).
     andthen (show_sample w train_set) (\<lambda>_.
     andthen (encode_upload b p k w train_set) (\<lambda>train_data.
     andthen (train b p w train_data) (\<lambda>fm.
     andthen (deploy w fm) (\<lambda>fm_predictor.
     andthen (evaluate w fm_predictor train_set test_set) (\<lambda>_.
     teardown w fm_predictor))))))"

text \<open>The script as it stands, with its constants.\<close>

definition run :: "env \<Rightarrow> unit prog" where
  "run w = script bucket prefix key w"

subsection \<open>Auxiliary definitions\<close>

text \<open>Cutting a list into consecutive pieces of the given sizes: what the slices of
  \<open>array_split\<close> amount to.\<close>

fun chop :: "'a list \<Rightarrow> nat list \<Rightarrow> 'a list list" where
  "chop xs [] = []"
| "chop xs (s # ss) = take s xs # chop (drop s xs) ss"

text \<open>
  The response of an endpoint that predicts row by row with \<open>f\<close>, in the format of the
  inference interface: \<^verbatim>\<open>{"predictions": [{"predicted_label": f(row)}, ...]}\<close>, one item per
  row of the request, in the order of the rows.
\<close>

definition per_row_response :: "(real list \<Rightarrow> json) \<Rightarrow> matrix \<Rightarrow> json" where
  "per_row_response f rows =
     JObj [(''predictions'', JArr (map (\<lambda>row. JObj [(''predicted_label'', f row)]) rows))]"

text \<open>
  What the calls of a run with bucket \<open>b\<close>, prefix \<open>p\<close> and key \<open>k\<close> in environment \<open>w\<close> are
  expected to carry: the upload goes to \<open>b\<close> under the joined key, the training job gets
  the locator of line 49 and a feature dimension of 784, every request to the endpoint is
  a serialised batch sent as JSON, and the record serialiser gets the encoded training
  split.
\<close>

fun expected :: "string \<Rightarrow> string \<Rightarrow> string \<Rightarrow> env \<Rightarrow> event \<Rightarrow> bool" where
  "expected b p k w (Upload bk ky buf) = (bk = b \<and> ky = object_key (os_name w) p k)"
| "expected b p k w (Fit est channels) =
     (channels = [(''train'', s3_train_data b p k)]
      \<and> hyperparameters est ''feature_dim'' = Some (HInt 784))"
| "expected b p k w (InvokeEndpoint ep ct body) =
     (ct = ''application/json'' \<and> (\<exists>rows. body = fm_serializer (json_dumps w) rows))"
| "expected b p k w (WriteTensor V L) =
     (vectors (fst (fst (pickled w))) = Inr V \<and> L = labels (snd (fst (pickled w))))"
| "expected b p k w _ = True"

text \<open>A call other than the deletion of an endpoint.\<close>

definition nodelete :: "event \<Rightarrow> bool" where
  "nodelete e = (\<forall>ep. e \<noteq> DeleteEndpoint ep)"

text \<open>
  A run that ends with an exception leaves the endpoint undeleted: either no deletion was
  called at all, or the exception is the one raised by the deletion call itself, the
  last call of the run.
\<close>

definition unreleased :: "env \<Rightarrow> 'a prog \<Rightarrow> bool" where
  "unreleased w m =
     (\<forall>line e. snd m = Inl (line, e) \<longrightarrow>
        (\<forall>ev \<in> set (fst m). nodelete ev)
        \<or> (line = 113 \<and> (\<exists>es ep. fst m = es @ [DeleteEndpoint ep]
                            \<and> raises w (113, 0) (DeleteEndpoint ep) = Some e)))"

text \<open>A run that ends with an exception raised after line 77 has called \<open>deploy\<close>.\<close>

definition deployed :: "'a prog \<Rightarrow> bool" where
  "deployed m =
     (\<forall>line e. snd m = Inl (line, e) \<longrightarrow> 77 < line \<longrightarrow>
        (\<exists>fm. Deploy fm 1 ''ml.m4.xlarge'' \<in> set (fst m)))"

text \<open>The finite binary32 numbers.\<close>

definition is_float32 :: "real \<Rightarrow> bool" where
  "is_float32 y \<longleftrightarrow>
     (\<exists>m e :: int. \<bar>m\<bar> < 2 ^ 24 \<and> - 149 \<le> e \<and> e \<le> 104 \<and> y = of_int m * 2 powr of_int e)"

text \<open>
  A small environment to run the script in: 31 blank training images, three blank test
  images, a serialiser that writes one character per instance and an endpoint that
  answers every instance with the label 1. Its arguments are the kind of system (POSIX
  for \<open>stub_env\<close>) and which calls raise.
\<close>

definition stub_dumps :: "json \<Rightarrow> string" where
  "stub_dumps js =
     (case getitem js ''instances'' of
        Inr (JArr xs) \<Rightarrow> replicate (length xs) CHR ''i''
      | _ \<Rightarrow> [])"

definition stub_deserializer :: "string \<Rightarrow> exn + json" where
  "stub_deserializer body =
     Inr (JObj [(''predictions'',
                 JArr (replicate (length body) (JObj [(''predicted_label'', JNum 1)])))])"

definition stub_dataset :: dataset where
  "stub_dataset =
     ((replicate 31 (replicate 784 0), replicate 31 0),
      ([], []),
      (replicate 3 (replicate 784 0), [0, 5, 0]))"

definition stub_env_on :: "os_kind \<Rightarrow> (nat \<times> nat \<Rightarrow> event \<Rightarrow> exn option) \<Rightarrow> env" where
  "stub_env_on os r =
     \<lparr>raises = r, os_name = os, pickled = stub_dataset,
      tensor_bytes = (\<lambda>V L. []), region_name = ''us-east-1'',
      image_uri = (\<lambda>region algorithm. algorithm), endpoint_name = (\<lambda>fm. ''fm-endpoint''),
      response_body = (\<lambda>site ep ct body. body), json_dumps = stub_dumps,
      json_deserializer = stub_deserializer\<rparr>"

definition stub_env :: "(nat \<times> nat \<Rightarrow> event \<Rightarrow> exn option) \<Rightarrow> env" where
  "stub_env r = stub_env_on Posix r"

text \<open>Every request to the endpoint raises; no other call does.\<close>

definition endpoint_down :: "nat \<times> nat \<Rightarrow> event \<Rightarrow> exn option" where
  "endpoint_down site ev =
     (case ev of InvokeEndpoint ep ct body \<Rightarrow> Some (ServiceError ''unavailable'') | _ \<Rightarrow> None)"

section \<open>Properties\<close>

subsection \<open>Helper facts about array\_split\<close>

lemma cumsum_from_length [simp]: "length (cumsum_from a ss) = length ss"
  by (induction ss arbitrary: a) auto

lemma slices_chop:
  "map (\<lambda>i. slice xs ((a # cumsum_from a ss) ! i) ((a # cumsum_from a ss) ! (i + 1))) [0..<length ss]
     = chop (drop a xs) ss"
proof (induction ss arbitrary: a)
  case Nil
  then show ?case by simp
next
  case (Cons s ss)
  have "map (\<lambda>i. slice xs ((a # cumsum_from a (s # ss)) ! i) ((a # cumsum_from a (s # ss)) ! (i + 1)))
          [0..<length (s # ss)]
        = slice xs a (a + s)
          # map (\<lambda>i. slice xs (((a + s) # cumsum_from (a + s) ss) ! i)
                              (((a + s) # cumsum_from (a + s) ss) ! (i + 1))) [0..<length ss]"
    by (simp add: map_upt_Suc del: upt_Suc)
  also have "\<dots> = take s (drop a xs) # chop (drop (a + s) xs) ss"
    using Cons.IH [of "a + s"] by (simp add: slice_def)
  also have "\<dots> = chop (drop a xs) (s # ss)"
    by (simp add: add.commute)
  finally show ?case .
qed

lemma concat_chop: "concat (chop xs ss) = take (sum_list ss) xs"
proof (induction ss arbitrary: xs)
  case Nil
  then show ?case by simp
next
  case (Cons s ss)
  then show ?case by (simp add: take_add)
qed

lemma length_chop [simp]: "length (chop xs ss) = length ss"
  by (induction ss arbitrary: xs) auto

lemma map_length_chop: "sum_list ss \<le> length xs \<Longrightarrow> map length (chop xs ss) = ss"
  by (induction ss arbitrary: xs) auto

lemma sum_list_section_sizes: "0 < n \<Longrightarrow> sum_list (section_sizes N n) = N"
proof -
  assume n: "0 < n"
  have le: "N mod n \<le> n" using n by (simp add: less_imp_le)
  have "sum_list (section_sizes N n) = (N mod n) * (N div n + 1) + (n - N mod n) * (N div n)"
    by (simp add: section_sizes_def Let_def sum_list_replicate)
  also have "\<dots> = (N mod n + (n - N mod n)) * (N div n) + N mod n"
    by (simp add: algebra_simps)
  also have "\<dots> = n * (N div n) + N mod n"
    using le by simp
  also have "\<dots> = N" by simp
  finally show ?thesis .
qed

lemma length_section_sizes: "0 < n \<Longrightarrow> length (section_sizes N n) = n"
  by (simp add: section_sizes_def Let_def less_imp_le)

lemma array_split_chop:
  "0 < n \<Longrightarrow> array_split xs n = Inr (chop xs (section_sizes (length xs) n))"
  using slices_chop [of xs 0 "section_sizes (length xs) n"]
  by (simp add: array_split_def cumsum_def length_section_sizes)

subsection \<open>Binarisation\<close>

text \<open>
  C1. For every label L the training-label transform of line 37 yields 1.0 if L = 0 and
  0.0 otherwise, and the ground-truth transform of line 110 yields 1 if L = 0 and 0
  otherwise; both act on every position of the label array.
\<close>

theorem binarize_zero_positive:
  "labels [L] = [if L = 0 then 1 else 0]
   \<and> actuals [L] = [if L = 0 then 1 else 0]
   \<and> labels ls = map (\<lambda>L. if L = 0 then 1 else 0) ls
   \<and> actuals ls = map (\<lambda>L. if L = 0 then 1 else 0) ls"
  by (simp add: labels_def actuals_def np_where_def eq_zero_def comp_def)

subsection \<open>Chunking the test split (line 101)\<close>

lemma chop_nil: "chop [] (replicate n 0) = replicate n []"
  by (induction n) auto

lemma replicate3: "replicate 3 x = [x, x, x]"
  by (simp add: numeral_3_eq_3)

lemma array_split_sizes:
  "0 < n \<Longrightarrow> \<exists>chunks. array_split xs n = Inr chunks \<and> length chunks = n \<and> concat chunks = xs
      \<and> map length chunks = section_sizes (length xs) n"
  by (simp add: array_split_chop concat_chop map_length_chop sum_list_section_sizes length_section_sizes)

lemma all_equal_iff:
  assumes "0 < n"
  shows "(\<forall>c \<in> set (section_sizes N n). \<forall>d \<in> set (section_sizes N n). c = d) \<longleftrightarrow> n dvd N"
proof (cases "N mod n = 0")
  case True
  then show ?thesis by (auto simp: section_sizes_def Let_def)
next
  case False
  have lt: "N mod n < n" using assms by simp
  have a: "N div n + 1 \<in> set (section_sizes N n)"
    using False by (simp add: section_sizes_def Let_def)
  have b: "N div n \<in> set (section_sizes N n)"
    using lt by (simp add: section_sizes_def Let_def)
  have "N div n + 1 \<noteq> N div n" by simp
  with a b have "\<not> (\<forall>c \<in> set (section_sizes N n). \<forall>d \<in> set (section_sizes N n). c = d)"
    by blast
  then show ?thesis using False by (simp add: dvd_eq_mod_eq_0)
qed

text \<open>
  C6, as the code has it. For every test feature set of N rows the evaluator cuts the
  rows into exactly 100 chunks; the first N mod 100 chunks have N div 100 + 1 rows and
  the remaining ones N div 100 rows, so the chunks are all of equal size exactly when
  100 divides N.
\<close>

theorem array_split_100_chunks:
  "\<exists>chunks. array_split test_x 100 = Inr chunks
      \<and> length chunks = 100
      \<and> map length chunks =
          replicate (length test_x mod 100) (length test_x div 100 + 1)
          @ replicate (100 - length test_x mod 100) (length test_x div 100)
      \<and> ((\<forall>c \<in> set chunks. \<forall>d \<in> set chunks. length c = length d) \<longleftrightarrow> 100 dvd length test_x)"
proof -
  obtain chunks where c: "array_split test_x 100 = Inr chunks" "length chunks = 100"
      "map length chunks = section_sizes (length test_x) 100"
    using array_split_sizes [of 100 test_x] by auto
  have "(\<forall>c \<in> set chunks. \<forall>d \<in> set chunks. length c = length d)
        \<longleftrightarrow> (\<forall>c \<in> set (map length chunks). \<forall>d \<in> set (map length chunks). c = d)"
    by simp
  also have "\<dots> \<longleftrightarrow> 100 dvd length test_x"
    unfolding c(3) by (rule all_equal_iff) simp
  finally have eq: "(\<forall>c \<in> set chunks. \<forall>d \<in> set chunks. length c = length d) \<longleftrightarrow> 100 dvd length test_x" .
  have "map length chunks =
          replicate (length test_x mod 100) (length test_x div 100 + 1)
          @ replicate (100 - length test_x mod 100) (length test_x div 100)"
    using c(3) by (simp add: section_sizes_def Let_def)
  with c eq show ?thesis by blast
qed

text \<open>
  A test split of three rows: the first three chunks hold one row each and the other 97
  are empty, so the 100 chunks are not of equal size.
\<close>

theorem array_split_unequal_chunks:
  "array_split [1::nat, 2, 3] 100 = Inr ([1] # [2] # [3] # replicate 97 [])"
proof -
  have l: "length [1::nat, 2, 3] = 3" by simp
  have s: "section_sizes 3 100 = [1, 1, 1] @ replicate 97 0"
    by (simp add: section_sizes_def Let_def replicate3)
  have "array_split [1::nat, 2, 3] 100 = Inr (chop [1, 2, 3] (section_sizes (length [1::nat, 2, 3]) 100))"
    by (rule array_split_chop) simp
  then show ?thesis unfolding l s by (simp add: chop_nil)
qed

text \<open>A test split of 200 rows: 100 chunks of two rows each.\<close>

theorem array_split_100_chunks_witness:
  "\<exists>chunks. array_split (replicate 200 (0::nat)) 100 = Inr chunks
      \<and> length chunks = 100
      \<and> map length chunks = replicate 100 2
      \<and> (\<forall>c \<in> set chunks. \<forall>d \<in> set chunks. length c = length d)"
  using array_split_100_chunks [of "replicate 200 (0::nat)"] by simp

subsection \<open>The prediction loop (lines 100 to 103)\<close>

lemma comprehension_map:
  "comprehension (\<lambda>r. getitem r k) (map (\<lambda>x. JObj [(k, f x)]) xs) = Inr (map f xs)"
  by (induction xs) auto

lemma predicted_labels_per_row: "predicted_labels (per_row_response f rows) = Inr (map f rows)"
  by (simp add: predicted_labels_def per_row_response_def comprehension_map)

lemma predict_loop_per_row:
  assumes "\<forall>i rows. \<exists>es. predict_chunk i rows = (es, Inr (per_row_response f rows))"
  shows "\<exists>es. predict_loop predict_chunk i arrays acc = (es, Inr (acc @ map f (concat arrays)))"
proof (induction arrays arbitrary: i acc)
  case Nil
  then show ?case by simp
next
  case (Cons array arrays)
  obtain es where p: "predict_chunk i array = (es, Inr (per_row_response f array))"
    using assms by blast
  obtain es' where l: "predict_loop predict_chunk (Suc i) arrays (acc @ map f array)
                         = (es', Inr ((acc @ map f array) @ map f (concat arrays)))"
    using Cons.IH by blast
  show ?case
    by (simp add: p l andthen_def lift_def predicted_labels_per_row)
qed

text \<open>
  C2. For every test feature matrix and every per-row prediction function \<open>f\<close>: when
  each call of \<open>predict\<close> answers with the predictions of \<open>f\<close> for the rows it was sent,
  splitting the matrix into 100 parts, predicting per part and concatenating the
  extracted labels in chunk order returns one label per test row, and the label at
  position i is the prediction for the i-th row of the test matrix.
\<close>

theorem chunked_predictions_in_order:
  assumes "\<And>i rows. \<exists>es. predict_chunk i rows = (es, Inr (per_row_response f rows))"
  shows "\<exists>arrays es. array_split test_x 100 = Inr arrays
           \<and> predict_loop predict_chunk 0 arrays [] = (es, Inr (map f test_x))
           \<and> length (map f test_x) = length test_x
           \<and> (\<forall>i < length test_x. map f test_x ! i = f (test_x ! i))"
proof -
  obtain arrays where a: "array_split test_x 100 = Inr arrays" "concat arrays = test_x"
    using array_split_sizes [of 100 test_x] by auto
  from assms have "\<forall>i rows. \<exists>es. predict_chunk i rows = (es, Inr (per_row_response f rows))"
    by blast
  then obtain es where "predict_loop predict_chunk 0 arrays [] = (es, Inr ([] @ map f (concat arrays)))"
    using predict_loop_per_row [of predict_chunk f 0 arrays "[]"] by blast
  with a show ?thesis by simp
qed

text \<open>Three rows, predicted by the sum of their features.\<close>

theorem chunked_predictions_in_order_witness:
  "\<exists>arrays es. array_split [[1], [2], [3]] 100 = Inr arrays
     \<and> predict_loop (\<lambda>i rows. ([], Inr (per_row_response (\<lambda>row. JNum (sum_list row)) rows))) 0 arrays []
         = (es, Inr [JNum 1, JNum 2, JNum 3])"
  using chunked_predictions_in_order
    [of "\<lambda>i rows. ([], Inr (per_row_response (\<lambda>row. JNum (sum_list row)) rows))"
        "\<lambda>row. JNum (sum_list row)" "[[1], [2], [3]]"]
  by simp blast

subsection \<open>The confusion table (line 110)\<close>

lemma count_list_card:
  "count_list xs x = card {i. i < length xs \<and> xs ! i = x}"
proof -
  have "count_list xs x = length (filter ((=) x) xs)"
    by (rule count_list_eq_length_filter)
  also have "\<dots> = card {i. i < length xs \<and> x = xs ! i}"
    by (rule length_filter_conv_card)
  also have "{i. i < length xs \<and> x = xs ! i} = {i. i < length xs \<and> xs ! i = x}"
    by auto
  finally show ?thesis .
qed

lemma count_list_zip_card:
  assumes "length xs = length ys"
  shows "count_list (zip xs ys) (a, p) = card {i. i < length xs \<and> xs ! i = a \<and> ys ! i = p}"
proof -
  have "{i. i < length (zip xs ys) \<and> zip xs ys ! i = (a, p)}
        = {i. i < length xs \<and> xs ! i = a \<and> ys ! i = p}"
    using assms by auto
  then show ?thesis by (simp add: count_list_card)
qed

lemma sum_count_zip:
  "(\<Sum>a \<in> set xs. \<Sum>p \<in> set ys. count_list (zip xs ys) (a, p)) = length (zip xs ys)"
proof -
  have "(\<Sum>a \<in> set xs. \<Sum>p \<in> set ys. count_list (zip xs ys) (a, p))
        = (\<Sum>z \<in> set xs \<times> set ys. count_list (zip xs ys) z)"
    by (simp add: sum.cartesian_product)
  also have "\<dots> = length (zip xs ys)"
  proof (rule sum_count_set)
    show "set (zip xs ys) \<subseteq> set xs \<times> set ys"
      by (auto dest: set_zip_leftD set_zip_rightD)
    show "finite (set xs \<times> set ys)" by simp
  qed
  finally show ?thesis .
qed

lemma crosstab_cells:
  assumes "length idx = length cols"
  shows "\<exists>t. crosstab idx cols = Inr t
           \<and> index t = set idx \<and> columns t = set cols
           \<and> cell_total t = length idx
           \<and> (\<forall>a p. cell t a p = card {i. i < length idx \<and> idx ! i = a \<and> cols ! i = p})"
  using assms sum_count_zip [of idx cols]
  by (simp add: crosstab_def cell_total_def count_list_zip_card)

lemma length_actuals [simp]: "length (actuals ls) = length ls"
  by (simp add: actuals_def np_where_def eq_zero_def)

text \<open>
  C3. For every list of actual labels and every list of predicted labels of the same
  length, the cross-tabulation of the binarised actuals against the predictions has
  cells that sum to the number of samples, and each cell (a, p) counts exactly the
  indices i with binarised actual a and prediction p at i; for the actuals [0,1,0,2]
  and the predictions [1,0,1,0] the cells sum to 4.
\<close>

theorem crosstab_counts_pairs:
  "(length actual = length predicted \<longrightarrow>
      (\<exists>t. crosstab (actuals actual) predicted = Inr t
         \<and> cell_total t = length actual
         \<and> (\<forall>a p. cell t a p
               = card {i. i < length actual \<and> actuals actual ! i = a \<and> predicted ! i = p})))
   \<and> (\<exists>t. crosstab (actuals [0, 1, 0, 2]) [1, 0, 1, 0 :: int] = Inr t \<and> cell_total t = 4)"
proof
  show "length actual = length predicted \<longrightarrow>
      (\<exists>t. crosstab (actuals actual) predicted = Inr t
         \<and> cell_total t = length actual
         \<and> (\<forall>a p. cell t a p
               = card {i. i < length actual \<and> actuals actual ! i = a \<and> predicted ! i = p}))"
  proof
    assume "length actual = length predicted"
    then have "length (actuals actual) = length predicted" by simp
    from crosstab_cells [OF this] show "\<exists>t. crosstab (actuals actual) predicted = Inr t
         \<and> cell_total t = length actual
         \<and> (\<forall>a p. cell t a p
               = card {i. i < length actual \<and> actuals actual ! i = a \<and> predicted ! i = p})"
      by auto
  qed
  have "length (actuals [0, 1, 0, 2]) = length [1, 0, 1, 0 :: int]" by simp
  from crosstab_cells [OF this]
  show "\<exists>t. crosstab (actuals [0, 1, 0, 2]) [1, 0, 1, 0 :: int] = Inr t \<and> cell_total t = 4"
    by auto
qed

text \<open>The example of the specification: two samples in cell (1, 1), two in cell (0, 0).\<close>

theorem crosstab_counts_pairs_witness:
  "\<exists>t. crosstab (actuals [0, 1, 0, 2]) [1, 0, 1, 0 :: int] = Inr t
      \<and> cell_total t = 4
      \<and> cell t 1 1 = 2 \<and> cell t 0 0 = 2 \<and> cell t 1 0 = 0 \<and> cell t 0 1 = 0"
proof -
  have h: "length [0, 1, 0, 2 :: int] = length [1, 0, 1, 0 :: int]" by simp
  from crosstab_counts_pairs [of "[0, 1, 0, 2]" "[1, 0, 1, 0 :: int]"] h
  obtain t where t: "crosstab (actuals [0, 1, 0, 2]) [1, 0, 1, 0 :: int] = Inr t"
      "cell_total t = length [0, 1, 0, 2 :: int]"
    by blast
  from t(1) have "cell t 1 1 = 2 \<and> cell t 0 0 = 2 \<and> cell t 1 0 = 0 \<and> cell t 0 1 = 0"
    by (auto simp: crosstab_def actuals_def np_where_def eq_zero_def)
  with t show ?thesis by simp
qed

subsection \<open>Runs: which calls a statement makes, and what it returns\<close>

lemma andthen_ok: "m = (es, Inr x) \<Longrightarrow> andthen m f = (es @ fst (f x), snd (f x))"
  by (simp add: andthen_def split: prod.splits)

lemma prog_cases:
  obtains (fail) es e where "m = (es, Inl e)" | (ok) es x where "m = (es, Inr x)"
  by (cases m; cases "snd m") auto

lemma andthen_events:
  assumes "\<forall>e \<in> set (fst m). P e"
    and "\<And>es x. m = (es, Inr x) \<Longrightarrow> \<forall>e \<in> set (fst (f x)). P e"
  shows "\<forall>e \<in> set (fst (andthen m f)). P e"
proof (cases m rule: prog_cases)
  case (fail es e)
  then show ?thesis using assms(1) by (simp add: andthen_def)
next
  case (ok es x)
  from assms(2) [OF ok] assms(1) ok show ?thesis
    by (auto simp: andthen_def split: prod.splits)
qed

lemma call_events: "P ev \<Longrightarrow> \<forall>e \<in> set (fst (call w site ev r)). P e"
  by (simp add: call_def split: option.splits)

lemma lift_events: "\<forall>e \<in> set (fst (lift line r)). P e"
  by (simp add: lift_def split: sum.splits)

lemma ret_events: "\<forall>e \<in> set (fst ([], r)). P e"
  by simp

lemma call_result: "call w site ev r = (es, Inr x) \<Longrightarrow> x = r \<and> es = [ev]"
  by (auto simp: call_def split: option.splits)

lemma lift_result: "lift line r = (es, Inr x) \<Longrightarrow> r = Inr x \<and> es = []"
  by (auto simp: lift_def split: sum.splits)

lemma andthen_result:
  "andthen m f = (tr, Inr y) \<longleftrightarrow> (\<exists>es x es'. m = (es, Inr x) \<and> f x = (es', Inr y) \<and> tr = es @ es')"
  by (cases m rule: prog_cases) (auto simp: andthen_def split: prod.splits)

lemma load_dataset_events:
  assumes "\<And>u f. P (Urlretrieve u f)" "\<And>f. P (PickleLoad f)"
  shows "\<forall>e \<in> set (fst (load_dataset w)). P e"
  unfolding load_dataset_def
  by (intro andthen_events call_events assms)

lemma load_dataset_result: "load_dataset w = (es, Inr ds) \<Longrightarrow> ds = pickled w"
  by (auto simp: load_dataset_def andthen_result dest!: call_result)

lemma show_sample_events:
  assumes "\<And>r c. P (Subplots r c)" "\<And>s. P (Axis s)" "\<And>m c. P (Imshow m c)" "\<And>s. P (Title s)"
  shows "\<forall>e \<in> set (fst (show_sample w train_set)). P e"
  unfolding show_sample_def show_digit_def
  by (intro andthen_events call_events lift_events assms)

lemma encode_upload_events:
  assumes "\<And>V. vectors (fst train_set) = Inr V \<Longrightarrow> P (WriteTensor V (labels (snd train_set)))"
    "\<And>buf. P (Upload b (object_key (os_name w) p k) buf)" "\<And>s. P (Print s)"
  shows "\<forall>e \<in> set (fst (encode_upload b p k w train_set)). P e"
  unfolding encode_upload_def
  apply (rule andthen_events)
   apply (rule lift_events)
  apply (drule lift_result)
  apply (intro andthen_events call_events assms ret_events)
  apply simp
  done

lemma encode_upload_result:
  "encode_upload b p k w train_set = (es, Inr td) \<Longrightarrow> td = s3_train_data b p k"
  by (auto simp: encode_upload_def andthen_result)

lemma train_events:
  assumes "\<And>s. P (Print s)" "P RegionName" "\<And>r a. P (GetImageUri r a)" "P NewSession"
    "\<And>c. P (Fit (fm_estimator c (output_location b p)) [(''train'', td)])"
  shows "\<forall>e \<in> set (fst (train b p w td)). P e"
  unfolding train_def
  by (intro andthen_events call_events assms ret_events)

lemma deploy_events:
  assumes "\<And>n t. P (Deploy fm n t)"
  shows "\<forall>e \<in> set (fst (deploy w fm)). P e"
  unfolding deploy_def
  by (intro andthen_events call_events assms ret_events)

lemma deploy_result:
  "deploy w fm = (es, Inr pr) \<Longrightarrow>
     es = [Deploy fm 1 ''ml.m4.xlarge''] \<and> endpoint pr = endpoint_name w fm
     \<and> content_type pr = ''application/json'' \<and> serializer pr = fm_serializer (json_dumps w)
     \<and> deserializer pr = json_deserializer w"
  by (auto simp: deploy_def andthen_result dest!: call_result)

lemma predict_events:
  assumes "\<And>rows. P (InvokeEndpoint (endpoint pr) (content_type pr) (serializer pr rows))"
  shows "\<forall>e \<in> set (fst (predict w site pr data)). P e"
  unfolding predict_def
  by (intro andthen_events call_events assms lift_events)

lemma predict_loop_events:
  assumes "\<And>i a. \<forall>e \<in> set (fst (pc i a)). P e"
  shows "\<forall>e \<in> set (fst (predict_loop pc i arrays acc)). P e"
proof (induction arrays arbitrary: i acc)
  case Nil
  then show ?case by simp
next
  case (Cons a arrays)
  show ?case
    unfolding predict_loop.simps
    by (intro andthen_events assms lift_events Cons.IH)
qed

lemma evaluate_events:
  assumes "\<And>rows. P (InvokeEndpoint (endpoint pr) (content_type pr) (serializer pr rows))"
    "\<And>j. P (PrintResult j)" "\<And>a ps. P (Crosstab a ps)"
  shows "\<forall>e \<in> set (fst (evaluate w pr train_set test_set)). P e"
  unfolding evaluate_def
  by (intro andthen_events call_events assms lift_events predict_events predict_loop_events)

subsection \<open>The calls of the whole script\<close>

lemma feature_dim_784: "hyperparameters (fm_estimator c out) ''feature_dim'' = Some (HInt 784)"
  by (simp add: fm_estimator_def set_hyperparameters_def)

lemma script_expected: "\<forall>e \<in> set (fst (script b p k w)). expected b p k w e"
  unfolding script_def
proof (rule andthen_events)
  show "\<forall>e \<in> set (fst (load_dataset w)). expected b p k w e"
    by (rule load_dataset_events) simp_all
next
  fix es ds
  assume "load_dataset w = (es, Inr ds)"
  then have ds: "ds = pickled w" by (rule load_dataset_result)
  obtain train_set valid_set test_set where s: "ds = (train_set, valid_set, test_set)"
    by (cases ds) auto
  have tr: "fst (pickled w) = train_set" using ds s by (metis fst_conv)
  have "\<forall>e \<in> set (fst (
     andthen (show_sample w train_set) (\<lambda>_.
     andthen (encode_upload b p k w train_set) (\<lambda>train_data.
     andthen (train b p w train_data) (\<lambda>fm.
     andthen (deploy w fm) (\<lambda>fm_predictor.
     andthen (evaluate w fm_predictor train_set test_set) (\<lambda>_.
     teardown w fm_predictor))))))). expected b p k w e"
  proof (rule andthen_events)
    show "\<forall>e \<in> set (fst (show_sample w train_set)). expected b p k w e"
      by (rule show_sample_events) simp_all
  next
    fix es1 x1
    show "\<forall>e \<in> set (fst (
       andthen (encode_upload b p k w train_set) (\<lambda>train_data.
       andthen (train b p w train_data) (\<lambda>fm.
       andthen (deploy w fm) (\<lambda>fm_predictor.
       andthen (evaluate w fm_predictor train_set test_set) (\<lambda>_.
       teardown w fm_predictor)))))). expected b p k w e"
    proof (rule andthen_events)
      show "\<forall>e \<in> set (fst (encode_upload b p k w train_set)). expected b p k w e"
        by (rule encode_upload_events) (simp_all add: tr)
    next
      fix es2 td
      assume "encode_upload b p k w train_set = (es2, Inr td)"
      then have td: "td = s3_train_data b p k" by (rule encode_upload_result)
      show "\<forall>e \<in> set (fst (
         andthen (train b p w td) (\<lambda>fm.
         andthen (deploy w fm) (\<lambda>fm_predictor.
         andthen (evaluate w fm_predictor train_set test_set) (\<lambda>_.
         teardown w fm_predictor))))). expected b p k w e"
      proof (rule andthen_events)
        show "\<forall>e \<in> set (fst (train b p w td)). expected b p k w e"
          by (rule train_events) (simp_all add: td feature_dim_784)
      next
        fix es3 fm
        show "\<forall>e \<in> set (fst (
           andthen (deploy w fm) (\<lambda>fm_predictor.
           andthen (evaluate w fm_predictor train_set test_set) (\<lambda>_.
           teardown w fm_predictor)))). expected b p k w e"
        proof (rule andthen_events)
          show "\<forall>e \<in> set (fst (deploy w fm)). expected b p k w e"
            by (rule deploy_events) simp
        next
          fix es4 pr
          assume "deploy w fm = (es4, Inr pr)"
          then have pr: "content_type pr = ''application/json''"
              "serializer pr = fm_serializer (json_dumps w)"
            by (auto dest: deploy_result)
          show "\<forall>e \<in> set (fst (
             andthen (evaluate w pr train_set test_set) (\<lambda>_. teardown w pr))). expected b p k w e"
          proof (rule andthen_events)
            show "\<forall>e \<in> set (fst (evaluate w pr train_set test_set)). expected b p k w e"
              by (rule evaluate_events) (auto simp: pr)
          next
            show "\<forall>e \<in> set (fst (teardown w pr)). expected b p k w e"
              unfolding teardown_def
              by (intro andthen_events call_events) simp_all
          qed
        qed
      qed
    qed
  qed
  then show "\<forall>e \<in> set (fst (case ds of (train_set, valid_set, test_set) \<Rightarrow>
     andthen (show_sample w train_set) (\<lambda>_.
     andthen (encode_upload b p k w train_set) (\<lambda>train_data.
     andthen (train b p w train_data) (\<lambda>fm.
     andthen (deploy w fm) (\<lambda>fm_predictor.
     andthen (evaluate w fm_predictor train_set test_set) (\<lambda>_.
     teardown w fm_predictor))))))). expected b p k w e"
    by (simp add: s)
qed

subsection \<open>The uploaded object and its locator (lines 47 to 49 and 75)\<close>

lemma join_step_train:
  "join_step p ''train'' = (if p = [] \<or> last p = CHR ''/'' then p @ ''train'' else p @ ''/train'')"
  by (simp add: join_step_def)

lemma object_key_posix:
  "object_key Posix p k =
     (if k \<noteq> [] \<and> hd k = CHR ''/'' then k
      else if p = [] \<or> last p = CHR ''/'' then p @ ''train/'' @ k
      else p @ ''/train/'' @ k)"
  by (simp add: object_key_def os_path_join_def posixpath_join_def join_step_train)
     (simp add: join_step_def)

lemma splitdrive_prefix: "ntpath_splitdrive ''sagemaker/DEMO-1'' = ([], ''sagemaker/DEMO-1'')"
  by (simp add: ntpath_splitdrive_def nt_sep_def)

lemma splitdrive_train: "ntpath_splitdrive ''train'' = ([], ''train'')"
  by (simp add: ntpath_splitdrive_def nt_sep_def)

lemma splitdrive_key: "ntpath_splitdrive ''recordio-pb-data'' = ([], ''recordio-pb-data'')"
  by (simp add: ntpath_splitdrive_def nt_sep_def)

lemma object_key_nt_constants:
  "object_key Nt prefix key
     = ''sagemaker/DEMO-1'' @ [CHR 0x5C] @ ''train'' @ [CHR 0x5C] @ ''recordio-pb-data''"
  by (simp add: object_key_def os_path_join_def ntpath_join_def prefix_def key_def
      splitdrive_prefix splitdrive_train splitdrive_key nt_join_step_def nt_relative_def
      nt_seps_def nt_sep_def)

text \<open>
  On every system and for every bucket, prefix and key, each upload of a run goes to the
  bucket under the key of line 48, and each training job gets the locator of line 49.
\<close>

lemma upload_and_fit_arguments:
  "s3_train_data b p k = ''s3://'' @ b @ ''/'' @ p @ ''/train/'' @ k
   \<and> (\<forall>ev \<in> set (fst (script b p k w)).
         (\<forall>bk ky buf. ev = Upload bk ky buf \<longrightarrow> bk = b \<and> ky = object_key (os_name w) p k)
       \<and> (\<forall>est channels. ev = Fit est channels \<longrightarrow> channels = [(''train'', s3_train_data b p k)]))"
proof (intro conjI)
  show "s3_train_data b p k = ''s3://'' @ b @ ''/'' @ p @ ''/train/'' @ k"
    by (simp add: s3_train_data_def)
  show "\<forall>ev \<in> set (fst (script b p k w)).
         (\<forall>bk ky buf. ev = Upload bk ky buf \<longrightarrow> bk = b \<and> ky = object_key (os_name w) p k)
       \<and> (\<forall>est channels. ev = Fit est channels \<longrightarrow> channels = [(''train'', s3_train_data b p k)])"
    using script_expected [of b p k w] by auto
qed

subsection \<open>Runs that end without an exception\<close>

lemma evaluate_result:
  assumes "evaluate w pr train_set test_set = (es, Inr t)"
  shows "\<exists>es' a ps. es = es' @ [Crosstab a ps] \<and> (\<forall>e \<in> set es'. nodelete e)"
proof -
  from assms obtain e1 result e2 u e3 arrays e4 predictions e5 u' e6 where
    s: "predict w (94, 0) pr (slice (fst train_set) 30 31) = (e1, Inr result)"
       "call w (95, 0) (PrintResult result) () = (e2, Inr u)"
       "lift 101 (array_split (fst test_set) 100) = (e3, Inr arrays)"
       "predict_loop (\<lambda>i. predict w (102, i) pr) 0 arrays [] = (e4, Inr predictions)"
       "call w (110, 0) (Crosstab (actuals (snd test_set)) predictions) () = (e5, Inr u')"
       "lift 110 (crosstab (actuals (snd test_set)) predictions) = (e6, Inr t)"
       "es = e1 @ e2 @ e3 @ e4 @ e5 @ e6"
    unfolding evaluate_def andthen_result by auto
  have n1: "\<forall>e \<in> set (fst (predict w (94, 0) pr (slice (fst train_set) 30 31))). nodelete e"
    by (rule predict_events) (simp add: nodelete_def)
  have n4: "\<forall>e \<in> set (fst (predict_loop (\<lambda>i. predict w (102, i) pr) 0 arrays [])). nodelete e"
    by (intro predict_loop_events predict_events) (simp add: nodelete_def)
  have e2: "e2 = [PrintResult result]" using s(2) by (auto dest: call_result)
  have e3: "e3 = []" using s(3) by (auto dest: lift_result)
  have e5: "e5 = [Crosstab (actuals (snd test_set)) predictions]" using s(5) by (auto dest: call_result)
  have e6: "e6 = []" using s(6) by (auto dest: lift_result)
  have "es = (e1 @ e2 @ e4) @ [Crosstab (actuals (snd test_set)) predictions]"
    using s(7) e3 e5 e6 by simp
  moreover have "\<forall>e \<in> set (e1 @ e2 @ e4). nodelete e"
    using n1 n4 s(1) s(4) e2 by (auto simp: nodelete_def)
  ultimately show ?thesis by blast
qed

lemma teardown_result:
  "teardown w pr = (es, Inr u) \<Longrightarrow> es = [NewSession, DeleteEndpoint (endpoint pr)]"
  by (auto simp: teardown_def andthen_result dest!: call_result)

lemma script_result:
  assumes "script b p k w = (tr, Inr u)"
  shows "\<exists>es a ps fm. tr = es @ [Crosstab a ps, NewSession, DeleteEndpoint (endpoint_name w fm)]
           \<and> (\<forall>e \<in> set es. nodelete e) \<and> Deploy fm 1 ''ml.m4.xlarge'' \<in> set es"
proof -
  from assms obtain e0 train_set valid_set test_set e1 u1 e2 td e3 fm e4 pr e5 t e6 where
    s: "load_dataset w = (e0, Inr (train_set, valid_set, test_set))"
       "show_sample w train_set = (e1, Inr u1)"
       "encode_upload b p k w train_set = (e2, Inr td)"
       "train b p w td = (e3, Inr fm)"
       "deploy w fm = (e4, Inr pr)"
       "evaluate w pr train_set test_set = (e5, Inr t)"
       "teardown w pr = (e6, Inr u)"
       "tr = e0 @ e1 @ e2 @ e3 @ e4 @ e5 @ e6"
    by (auto simp: script_def andthen_result split_def)
  have n0: "\<forall>e \<in> set e0. nodelete e"
    using load_dataset_events [of nodelete w] s(1) by (simp add: nodelete_def)
  have n1: "\<forall>e \<in> set e1. nodelete e"
    using show_sample_events [of nodelete w train_set] s(2) by (simp add: nodelete_def)
  have n2: "\<forall>e \<in> set e2. nodelete e"
    using encode_upload_events [where P = nodelete and w = w and b = b and p = p and k = k and train_set = train_set] s(3) by (simp add: nodelete_def)
  have n3: "\<forall>e \<in> set e3. nodelete e"
    using train_events [of nodelete b p td w] s(4) by (simp add: nodelete_def)
  have d: "e4 = [Deploy fm 1 ''ml.m4.xlarge'']" "endpoint pr = endpoint_name w fm"
    using deploy_result [OF s(5)] by simp_all
  obtain e5' a ps where e5: "e5 = e5' @ [Crosstab a ps]" "\<forall>e \<in> set e5'. nodelete e"
    using evaluate_result [OF s(6)] by blast
  have e6: "e6 = [NewSession, DeleteEndpoint (endpoint_name w fm)]"
    using teardown_result [OF s(7)] d(2) by simp
  have "tr = (e0 @ e1 @ e2 @ e3 @ e4 @ e5') @ [Crosstab a ps, NewSession, DeleteEndpoint (endpoint_name w fm)]"
    using s(8) e5(1) e6 by simp
  moreover have "\<forall>e \<in> set (e0 @ e1 @ e2 @ e3 @ e4 @ e5'). nodelete e"
    using n0 n1 n2 n3 d(1) e5(2) by (auto simp: nodelete_def)
  moreover have "Deploy fm 1 ''ml.m4.xlarge'' \<in> set (e0 @ e1 @ e2 @ e3 @ e4 @ e5')"
    using d(1) by simp
  ultimately show ?thesis by blast
qed

subsection \<open>Runs that end with an exception\<close>

lemma andthen_faults:
  assumes "\<forall>flt. snd m = Inl flt \<longrightarrow> Q flt"
    and "\<And>es x. m = (es, Inr x) \<Longrightarrow> \<forall>flt. snd (f x) = Inl flt \<longrightarrow> Q flt"
  shows "\<forall>flt. snd (andthen m f) = Inl flt \<longrightarrow> Q flt"
proof (cases m rule: prog_cases)
  case (fail es e)
  then show ?thesis using assms(1) by (simp add: andthen_def)
next
  case (ok es x)
  from assms(2) [OF ok] ok show ?thesis
    by (auto simp: andthen_def split: prod.splits)
qed

lemma call_faults: "(\<And>e. Q (fst site, e)) \<Longrightarrow> \<forall>flt. snd (call w site ev r) = Inl flt \<longrightarrow> Q flt"
  by (auto simp: call_def split: option.splits)

lemma lift_faults: "(\<And>e. Q (line, e)) \<Longrightarrow> \<forall>flt. snd (lift line r) = Inl flt \<longrightarrow> Q flt"
  by (auto simp: lift_def split: sum.splits)

lemma ret_faults: "\<forall>flt. snd ([], Inr x) = Inl flt \<longrightarrow> Q flt"
  by simp

lemma load_dataset_faults: "\<forall>flt. snd (load_dataset w) = Inl flt \<longrightarrow> fst flt \<le> 77"
  unfolding load_dataset_def
  by (intro andthen_faults call_faults) simp_all

lemma show_sample_faults: "\<forall>flt. snd (show_sample w train_set) = Inl flt \<longrightarrow> fst flt \<le> 77"
  unfolding show_sample_def show_digit_def
  by (intro andthen_faults call_faults lift_faults) simp_all

lemma encode_upload_faults:
  "\<forall>flt. snd (encode_upload b p k w train_set) = Inl flt \<longrightarrow> fst flt \<le> 77"
  unfolding encode_upload_def
  by (intro andthen_faults call_faults lift_faults ret_faults) simp_all

lemma train_faults: "\<forall>flt. snd (train b p w td) = Inl flt \<longrightarrow> fst flt \<le> 77"
  unfolding train_def
  by (intro andthen_faults call_faults lift_faults ret_faults) simp_all

lemma deploy_faults: "\<forall>flt. snd (deploy w fm) = Inl flt \<longrightarrow> fst flt \<le> 77"
  unfolding deploy_def
  by (intro andthen_faults call_faults lift_faults ret_faults) simp_all

lemma load_dataset_nodelete: "\<forall>e \<in> set (fst (load_dataset w)). nodelete e"
  by (rule load_dataset_events) (simp_all add: nodelete_def)

lemma show_sample_nodelete: "\<forall>e \<in> set (fst (show_sample w train_set)). nodelete e"
  by (rule show_sample_events) (simp_all add: nodelete_def)

lemma encode_upload_nodelete: "\<forall>e \<in> set (fst (encode_upload b p k w train_set)). nodelete e"
  by (rule encode_upload_events) (simp_all add: nodelete_def)

lemma train_nodelete: "\<forall>e \<in> set (fst (train b p w td)). nodelete e"
  by (rule train_events) (simp_all add: nodelete_def)

lemma deploy_nodelete: "\<forall>e \<in> set (fst (deploy w fm)). nodelete e"
  by (rule deploy_events) (simp_all add: nodelete_def)

lemma evaluate_nodelete: "\<forall>e \<in> set (fst (evaluate w pr train_set test_set)). nodelete e"
  by (rule evaluate_events) (simp_all add: nodelete_def)

lemma andthen_unreleased:
  assumes "\<forall>ev \<in> set (fst m). nodelete ev"
    and "\<And>es x. m = (es, Inr x) \<Longrightarrow> unreleased w (f x)"
  shows "unreleased w (andthen m f)"
proof (cases m rule: prog_cases)
  case (fail es e)
  then show ?thesis using assms(1) by (simp add: andthen_def unreleased_def)
next
  case (ok es x)
  have a: "andthen m f = (es @ fst (f x), snd (f x))" by (rule andthen_ok [OF ok])
  have n: "\<forall>ev \<in> set es. nodelete ev" using assms(1) ok by simp
  show ?thesis
    unfolding unreleased_def a
  proof (intro allI impI)
    fix line e
    assume "snd (es @ fst (f x), snd (f x)) = Inl (line, e)"
    then have "snd (f x) = Inl (line, e)" by simp
    with assms(2) [OF ok] have "(\<forall>ev \<in> set (fst (f x)). nodelete ev)
        \<or> (line = 113 \<and> (\<exists>es' ep. fst (f x) = es' @ [DeleteEndpoint ep]
                            \<and> raises w (113, 0) (DeleteEndpoint ep) = Some e))"
      by (simp add: unreleased_def)
    then show "(\<forall>ev \<in> set (fst (es @ fst (f x), snd (f x))). nodelete ev)
        \<or> (line = 113 \<and> (\<exists>es' ep. fst (es @ fst (f x), snd (f x)) = es' @ [DeleteEndpoint ep]
                            \<and> raises w (113, 0) (DeleteEndpoint ep) = Some e))"
    proof
      assume "\<forall>ev \<in> set (fst (f x)). nodelete ev"
      with n show ?thesis by auto
    next
      assume "line = 113 \<and> (\<exists>es' ep. fst (f x) = es' @ [DeleteEndpoint ep]
                            \<and> raises w (113, 0) (DeleteEndpoint ep) = Some e)"
      then obtain es' ep where "line = 113" "fst (f x) = es' @ [DeleteEndpoint ep]"
          "raises w (113, 0) (DeleteEndpoint ep) = Some e"
        by blast
      then have "line = 113 \<and> fst (es @ fst (f x), snd (f x)) = (es @ es') @ [DeleteEndpoint ep]
                   \<and> raises w (113, 0) (DeleteEndpoint ep) = Some e"
        by simp
      then show ?thesis by blast
    qed
  qed
qed

lemma teardown_unreleased: "unreleased w (teardown w pr)"
  by (auto simp: unreleased_def teardown_def andthen_def call_def nodelete_def split: option.splits)

lemma script_unreleased: "unreleased w (script b p k w)"
  unfolding script_def split_def
  by (intro andthen_unreleased teardown_unreleased load_dataset_nodelete show_sample_nodelete
        encode_upload_nodelete train_nodelete deploy_nodelete evaluate_nodelete)

lemma andthen_deployed:
  assumes "\<forall>flt. snd m = Inl flt \<longrightarrow> fst flt \<le> 77"
    and "\<And>es x. m = (es, Inr x) \<Longrightarrow> deployed (f x)"
  shows "deployed (andthen m f)"
proof (cases m rule: prog_cases)
  case (fail es e)
  then show ?thesis using assms(1) by (auto simp: andthen_def deployed_def)
next
  case (ok es x)
  have a: "andthen m f = (es @ fst (f x), snd (f x))" by (rule andthen_ok [OF ok])
  show ?thesis using assms(2) [OF ok] unfolding a deployed_def by auto
qed

lemma deploy_deployed: "deployed (andthen (deploy w fm) f)"
proof (cases "deploy w fm" rule: prog_cases)
  case (fail es e)
  then show ?thesis using deploy_faults [of w fm] by (auto simp: andthen_def deployed_def)
next
  case (ok es pr)
  have a: "andthen (deploy w fm) f = (es @ fst (f pr), snd (f pr))" by (rule andthen_ok [OF ok])
  have "es = [Deploy fm 1 ''ml.m4.xlarge'']" using deploy_result [OF ok] by simp
  then show ?thesis unfolding a deployed_def by auto
qed

lemma script_deployed: "deployed (script b p k w)"
  unfolding script_def split_def
  by (intro andthen_deployed deploy_deployed load_dataset_faults show_sample_faults
        encode_upload_faults train_faults)

subsection \<open>Conditions under which a run reaches the endpoint, ends normally, or fails\<close>

lemma andthen_Inr [simp]: "andthen (es, Inr x) f = (es @ fst (f x), snd (f x))"
  by (simp add: andthen_def split: prod.splits)

lemma andthen_Inl [simp]: "andthen (es, Inl e) f = (es, Inl e)"
  by (simp add: andthen_def)

lemma call_quiet: "raises w site ev = None \<Longrightarrow> call w site ev r = ([ev], Inr r)"
  by (simp add: call_def)

lemma fm_instances_map:
  "fm_instances data acc = acc @ map (\<lambda>row. JObj [(''features'', tolist row)]) data"
  by (induction data arbitrary: acc) auto

lemma script_after_deploy:
  assumes quiet: "\<And>site ev. (\<forall>ep ct body. ev \<noteq> InvokeEndpoint ep ct body) \<Longrightarrow> raises w site ev = None"
    and data: "pickled w = ((train_x, train_y), valid_set, (test_x, test_y))"
    and sample: "30 < length train_x" "30 < length train_y" "length (train_x ! 30) = 784"
    and matrix: "\<forall>r \<in> set train_x. length r = length (hd train_x)"
  shows "\<exists>es fm pr. endpoint pr = endpoint_name w fm \<and> content_type pr = ''application/json''
          \<and> serializer pr = fm_serializer (json_dumps w) \<and> deserializer pr = json_deserializer w
          \<and> Deploy fm 1 ''ml.m4.xlarge'' \<in> set es
          \<and> (\<exists>buf. Upload b (object_key (os_name w) p k) buf \<in> set es)
          \<and> (\<exists>V L. WriteTensor V L \<in> set es)
          \<and> (\<exists>channels. Fit fm channels \<in> set es)
          \<and> script b p k w
              = (es @ fst (andthen (evaluate w pr (train_x, train_y) (test_x, test_y)) (\<lambda>_. teardown w pr)),
                 snd (andthen (evaluate w pr (train_x, train_y) (test_x, test_y)) (\<lambda>_. teardown w pr)))"
proof -
  have c: "\<And>site ev r. (\<forall>ep ct body. ev \<noteq> InvokeEndpoint ep ct body) \<Longrightarrow> call w site ev r = ([ev], Inr r)"
    by (rule call_quiet) (rule quiet)
  obtain e0 where l: "load_dataset w = (e0, Inr (pickled w))"
    by (simp add: load_dataset_def c)
  obtain e1 where s: "show_sample w (train_x, train_y) = (e1, Inr ())"
    using sample by (simp add: show_sample_def show_digit_def item_def reshape_def lift_def c)
  have v: "vectors train_x = Inr (map (map astype_float32) train_x)"
    using matrix by (simp add: vectors_def np_array_def)
  obtain e2 where u: "encode_upload b p k w (train_x, train_y) = (e2, Inr (s3_train_data b p k))"
      "\<exists>buf. Upload b (object_key (os_name w) p k) buf \<in> set e2" "\<exists>V L. WriteTensor V L \<in> set e2"
    by (simp add: encode_upload_def v lift_def c)
  define fm where "fm = fm_estimator (image_uri w (region_name w) ''factorization-machines'') (output_location b p)"
  obtain e3 where t: "train b p w (s3_train_data b p k) = (e3, Inr fm)"
      "\<exists>channels. Fit fm channels \<in> set e3"
    by (simp add: train_def c fm_def)
  define pr where "pr = \<lparr>endpoint = endpoint_name w fm, content_type = ''application/json'',
      serializer = fm_serializer (json_dumps w), deserializer = json_deserializer w\<rparr>"
  have d: "deploy w fm = ([Deploy fm 1 ''ml.m4.xlarge''], Inr pr)"
    by (simp add: deploy_def c pr_def)
  have "script b p k w
      = ((e0 @ e1 @ e2 @ e3 @ [Deploy fm 1 ''ml.m4.xlarge''])
           @ fst (andthen (evaluate w pr (train_x, train_y) (test_x, test_y)) (\<lambda>_. teardown w pr)),
         snd (andthen (evaluate w pr (train_x, train_y) (test_x, test_y)) (\<lambda>_. teardown w pr)))"
    by (simp add: script_def l data s u(1) t(1) d)
  moreover have "endpoint pr = endpoint_name w fm \<and> content_type pr = ''application/json''
          \<and> serializer pr = fm_serializer (json_dumps w) \<and> deserializer pr = json_deserializer w"
    by (simp add: pr_def)
  moreover have "Deploy fm 1 ''ml.m4.xlarge'' \<in> set (e0 @ e1 @ e2 @ e3 @ [Deploy fm 1 ''ml.m4.xlarge''])"
    by simp
  moreover have "\<exists>buf. Upload b (object_key (os_name w) p k) buf \<in> set (e0 @ e1 @ e2 @ e3 @ [Deploy fm 1 ''ml.m4.xlarge''])"
    using u(2) by auto
  moreover have "\<exists>V L. WriteTensor V L \<in> set (e0 @ e1 @ e2 @ e3 @ [Deploy fm 1 ''ml.m4.xlarge''])"
    using u(3) by auto
  moreover have "\<exists>channels. Fit fm channels \<in> set (e0 @ e1 @ e2 @ e3 @ [Deploy fm 1 ''ml.m4.xlarge''])"
    using t(2) by auto
  ultimately show ?thesis by blast
qed
lemma evaluate_succeeds:
  assumes quiet: "\<And>site ev. raises w site ev = None"
    and rows: "\<And>site rows. deserializer pr
                  (response_body w site (endpoint pr) (content_type pr) (serializer pr rows))
                = Inr (per_row_response f rows)"
    and len: "length test_x = length test_y"
  shows "\<exists>es t. evaluate w pr train_set (test_x, test_y) = (es, Inr t)
           \<and> (\<exists>ep ct body. InvokeEndpoint ep ct body \<in> set es)"
proof -
  have p: "\<And>site data. predict w site pr data
             = ([InvokeEndpoint (endpoint pr) (content_type pr) (serializer pr data)],
                Inr (per_row_response f data))"
    by (simp add: predict_def call_quiet [OF quiet] rows lift_def)
  obtain arrays where a: "array_split test_x 100 = Inr arrays" "concat arrays = test_x"
    using array_split_sizes [of 100 test_x] by auto
  have "\<forall>i rows. \<exists>es. predict w (102, i) pr rows = (es, Inr (per_row_response f rows))"
    by (simp add: p)
  then obtain e4 where l: "predict_loop (\<lambda>i. predict w (102, i) pr) 0 arrays []
                            = (e4, Inr ([] @ map f (concat arrays)))"
    using predict_loop_per_row [of "\<lambda>i. predict w (102, i) pr" f 0 arrays "[]"] by blast
  have "length (actuals test_y) = length (map f test_x)" using len by simp
  then obtain t where c: "crosstab (actuals test_y) (map f test_x) = Inr t"
    by (simp add: crosstab_def)
  have "evaluate w pr train_set (test_x, test_y)
          = ([InvokeEndpoint (endpoint pr) (content_type pr) (serializer pr (slice (fst train_set) 30 31)),
              PrintResult (per_row_response f (slice (fst train_set) 30 31))]
             @ e4 @ [Crosstab (actuals test_y) (map f test_x)], Inr t)"
    by (simp add: evaluate_def p call_quiet [OF quiet] a l c lift_def)
  then show ?thesis by auto
qed

lemma teardown_succeeds:
  "(\<And>site ev. raises w site ev = None) \<Longrightarrow>
     teardown w pr = ([NewSession, DeleteEndpoint (endpoint pr)], Inr ())"
  by (simp add: teardown_def call_quiet)

lemma script_succeeds:
  assumes quiet: "\<And>site ev. raises w site ev = None"
    and data: "pickled w = ((train_x, train_y), valid_set, (test_x, test_y))"
    and sample: "30 < length train_x" "30 < length train_y" "length (train_x ! 30) = 784"
    and matrix: "\<forall>r \<in> set train_x. length r = length (hd train_x)"
    and rows: "\<And>site ep ct rows. json_deserializer w
                  (response_body w site ep ct (fm_serializer (json_dumps w) rows))
                = Inr (per_row_response f rows)"
    and len: "length test_x = length test_y"
  shows "snd (script b p k w) = Inr ()
         \<and> (\<exists>buf. Upload b (object_key (os_name w) p k) buf \<in> set (fst (script b p k w)))
         \<and> (\<exists>fm channels. Fit fm channels \<in> set (fst (script b p k w)))
         \<and> (\<exists>V L. WriteTensor V L \<in> set (fst (script b p k w)))
         \<and> (\<exists>ep ct body. InvokeEndpoint ep ct body \<in> set (fst (script b p k w)))"
proof -
  obtain es fm pr where pr: "content_type pr = ''application/json''"
      "serializer pr = fm_serializer (json_dumps w)" "deserializer pr = json_deserializer w"
    and up: "\<exists>buf. Upload b (object_key (os_name w) p k) buf \<in> set es"
    and fit: "\<exists>channels. Fit fm channels \<in> set es"
    and wt: "\<exists>V L. WriteTensor V L \<in> set es"
    and s: "script b p k w
              = (es @ fst (andthen (evaluate w pr (train_x, train_y) (test_x, test_y)) (\<lambda>_. teardown w pr)),
                 snd (andthen (evaluate w pr (train_x, train_y) (test_x, test_y)) (\<lambda>_. teardown w pr)))"
    using script_after_deploy [OF quiet data sample matrix, of b p k] by blast
  have "\<exists>es t. evaluate w pr (train_x, train_y) (test_x, test_y) = (es, Inr t)
           \<and> (\<exists>ep ct body. InvokeEndpoint ep ct body \<in> set es)"
    using evaluate_succeeds [of w pr f test_x test_y "(train_x, train_y)"] quiet rows len
    by (simp add: pr)
  then obtain e5 t where e: "evaluate w pr (train_x, train_y) (test_x, test_y) = (e5, Inr t)"
      "\<exists>ep ct body. InvokeEndpoint ep ct body \<in> set e5"
    by blast
  have "snd (script b p k w) = Inr ()"
    by (simp add: s e(1) teardown_succeeds [OF quiet])
  moreover have "\<exists>buf. Upload b (object_key (os_name w) p k) buf \<in> set (fst (script b p k w))"
    using up by (auto simp: s)
  moreover have "\<exists>fm channels. Fit fm channels \<in> set (fst (script b p k w))"
    using fit by (auto simp: s)
  moreover have "\<exists>V L. WriteTensor V L \<in> set (fst (script b p k w))"
    using wt by (auto simp: s)
  moreover have "\<exists>ep ct body. InvokeEndpoint ep ct body \<in> set (fst (script b p k w))"
    using e(2) by (auto simp: s e(1))
  ultimately show ?thesis by blast
qed

lemma script_fails_at_first_request:
  assumes quiet: "\<And>site ev. (\<forall>ep ct body. ev \<noteq> InvokeEndpoint ep ct body) \<Longrightarrow> raises w site ev = None"
    and down: "\<And>site ep ct body. raises w site (InvokeEndpoint ep ct body) = Some e"
    and data: "pickled w = ((train_x, train_y), valid_set, (test_x, test_y))"
    and sample: "30 < length train_x" "30 < length train_y" "length (train_x ! 30) = 784"
    and matrix: "\<forall>r \<in> set train_x. length r = length (hd train_x)"
  shows "snd (script b p k w) = Inl (94, e)"
proof -
  obtain es fm pr where
    s: "script b p k w
              = (es @ fst (andthen (evaluate w pr (train_x, train_y) (test_x, test_y)) (\<lambda>_. teardown w pr)),
                 snd (andthen (evaluate w pr (train_x, train_y) (test_x, test_y)) (\<lambda>_. teardown w pr)))"
    using script_after_deploy [OF quiet data sample matrix, of b p k] by blast
  have f: "snd (evaluate w pr (train_x, train_y) (test_x, test_y)) = Inl (94, e)"
    by (simp add: evaluate_def predict_def call_def down)
  then obtain e5 where "evaluate w pr (train_x, train_y) (test_x, test_y) = (e5, Inl (94, e))"
    by (cases "evaluate w pr (train_x, train_y) (test_x, test_y)") auto
  then show ?thesis
    by (simp add: s)
qed

lemma stub_rows:
  "stub_deserializer (fm_serializer stub_dumps rows) = Inr (per_row_response (\<lambda>row. JNum 1) rows)"
  by (simp add: stub_deserializer_def fm_serializer_def stub_dumps_def fm_instances_map
      per_row_response_def map_replicate_const)

lemma stub_run_on_succeeds:
  "snd (script b p k (stub_env_on os (\<lambda>site ev. None))) = Inr ()
   \<and> (\<exists>buf. Upload b (object_key os p k) buf
              \<in> set (fst (script b p k (stub_env_on os (\<lambda>site ev. None)))))
   \<and> (\<exists>fm channels. Fit fm channels \<in> set (fst (script b p k (stub_env_on os (\<lambda>site ev. None)))))
   \<and> (\<exists>V L. WriteTensor V L \<in> set (fst (script b p k (stub_env_on os (\<lambda>site ev. None)))))
   \<and> (\<exists>ep ct body. InvokeEndpoint ep ct body
              \<in> set (fst (script b p k (stub_env_on os (\<lambda>site ev. None)))))"
proof -
  let ?w = "stub_env_on os (\<lambda>site ev. None)"
  have "snd (script b p k ?w) = Inr ()
         \<and> (\<exists>buf. Upload b (object_key (os_name ?w) p k) buf \<in> set (fst (script b p k ?w)))
         \<and> (\<exists>fm channels. Fit fm channels \<in> set (fst (script b p k ?w)))
         \<and> (\<exists>V L. WriteTensor V L \<in> set (fst (script b p k ?w)))
         \<and> (\<exists>ep ct body. InvokeEndpoint ep ct body \<in> set (fst (script b p k ?w)))"
  proof (rule script_succeeds)
    show "pickled ?w
          = ((replicate 31 (replicate 784 0), replicate 31 0), ([], []),
             (replicate 3 (replicate 784 0), [0, 5, 0]))"
      by (simp add: stub_env_on_def stub_dataset_def)
    show "\<And>site ep ct rows. json_deserializer ?w
          (response_body ?w site ep ct (fm_serializer (json_dumps ?w) rows))
        = Inr (per_row_response (\<lambda>row. JNum 1) rows)"
      by (simp add: stub_env_on_def stub_rows)
  qed (simp_all add: stub_env_on_def)
  moreover have "os_name ?w = os" by (simp add: stub_env_on_def)
  ultimately show ?thesis by simp
qed

lemma stub_run_succeeds:
  "snd (script b p k (stub_env (\<lambda>site ev. None))) = Inr ()
   \<and> (\<exists>buf. Upload b (object_key Posix p k) buf \<in> set (fst (script b p k (stub_env (\<lambda>site ev. None)))))
   \<and> (\<exists>fm channels. Fit fm channels \<in> set (fst (script b p k (stub_env (\<lambda>site ev. None)))))
   \<and> (\<exists>V L. WriteTensor V L \<in> set (fst (script b p k (stub_env (\<lambda>site ev. None)))))
   \<and> (\<exists>ep ct body. InvokeEndpoint ep ct body \<in> set (fst (script b p k (stub_env (\<lambda>site ev. None)))))"
  unfolding stub_env_def by (rule stub_run_on_succeeds)

lemma stub_run_fails:
  "snd (script b p k (stub_env endpoint_down)) = Inl (94, ServiceError ''unavailable'')"
proof (rule script_fails_at_first_request)
  show "pickled (stub_env endpoint_down)
          = ((replicate 31 (replicate 784 0), replicate 31 0), ([], []),
             (replicate 3 (replicate 784 0), [0, 5, 0]))"
    by (simp add: stub_env_def stub_env_on_def stub_dataset_def)
  show "\<And>site ev. (\<forall>ep ct body. ev \<noteq> InvokeEndpoint ep ct body) \<Longrightarrow>
          raises (stub_env endpoint_down) site ev = None"
    by (simp add: stub_env_def stub_env_on_def endpoint_down_def split: event.splits)
qed (simp_all add: stub_env_def stub_env_on_def endpoint_down_def)

subsection \<open>Teardown (line 113)\<close>

text \<open>
  C7. On every run of the script that ends without an exception, whatever the
  environment answers, the deletion of the endpoint is called exactly once: it is the
  last call of the run, it follows the cross-tabulation of line 110 (only the creation
  of the session of line 113 lies between them), no earlier call is a deletion, and
  the endpoint deleted is the one that the \<open>deploy\<close> call of the run returned.
\<close>

theorem teardown_exactly_once:
  "snd (run w) = Inr () \<longrightarrow>
     (\<exists>es a ps fm.
         fst (run w) = es @ [Crosstab a ps, NewSession, DeleteEndpoint (endpoint_name w fm)]
       \<and> (\<forall>ev \<in> set es. \<forall>ep. ev \<noteq> DeleteEndpoint ep)
       \<and> Deploy fm 1 ''ml.m4.xlarge'' \<in> set es)"
proof
  assume "snd (run w) = Inr ()"
  then have "script bucket prefix key w = (fst (run w), Inr ())"
    by (simp add: run_def prod_eq_iff)
  from script_result [OF this] show "\<exists>es a ps fm.
         fst (run w) = es @ [Crosstab a ps, NewSession, DeleteEndpoint (endpoint_name w fm)]
       \<and> (\<forall>ev \<in> set es. \<forall>ep. ev \<noteq> DeleteEndpoint ep)
       \<and> Deploy fm 1 ''ml.m4.xlarge'' \<in> set es"
    by (simp add: nodelete_def)
qed

text \<open>A run in the stub environment where no call raises.\<close>

theorem teardown_exactly_once_witness:
  "snd (run (stub_env (\<lambda>site ev. None))) = Inr ()
   \<and> (\<exists>es a ps fm.
         fst (run (stub_env (\<lambda>site ev. None)))
           = es @ [Crosstab a ps, NewSession, DeleteEndpoint ''fm-endpoint'']
       \<and> (\<forall>ev \<in> set es. \<forall>ep. ev \<noteq> DeleteEndpoint ep)
       \<and> Deploy fm 1 ''ml.m4.xlarge'' \<in> set es)"
proof -
  have ok: "snd (run (stub_env (\<lambda>site ev. None))) = Inr ()"
    using stub_run_succeeds [of bucket prefix key] by (simp add: run_def)
  have n: "\<And>fm. endpoint_name (stub_env (\<lambda>site ev. None)) fm = ''fm-endpoint''"
    by (simp add: stub_env_def stub_env_on_def)
  from teardown_exactly_once [of "stub_env (\<lambda>site ev. None)"] ok show ?thesis
    by (simp add: n)
qed

text \<open>
  C8. When a run of the script ends with an exception, the deletion of the endpoint was
  never called, unless the exception is the one that the deletion call itself raised.
  In particular, when a line after the deployment (line 77) and before the teardown
  (line 113) raises, the run has deployed the endpoint and has not called its
  deletion: no statement catches the exception.
\<close>

theorem endpoint_not_deleted_on_exception:
  "snd (run w) = Inl (line, e) \<longrightarrow>
     ((\<forall>ep. DeleteEndpoint ep \<notin> set (fst (run w)))
      \<or> (line = 113 \<and> (\<exists>es ep. fst (run w) = es @ [DeleteEndpoint ep]
                          \<and> raises w (113, 0) (DeleteEndpoint ep) = Some e)))
     \<and> (77 < line \<and> line < 113 \<longrightarrow>
          (\<exists>fm. Deploy fm 1 ''ml.m4.xlarge'' \<in> set (fst (run w)))
          \<and> (\<forall>ep. DeleteEndpoint ep \<notin> set (fst (run w))))"
proof
  assume f: "snd (run w) = Inl (line, e)"
  from script_unreleased [of w bucket prefix key] f
  have u: "(\<forall>ev \<in> set (fst (run w)). nodelete ev)
      \<or> (line = 113 \<and> (\<exists>es ep. fst (run w) = es @ [DeleteEndpoint ep]
                          \<and> raises w (113, 0) (DeleteEndpoint ep) = Some e))"
    by (simp add: unreleased_def run_def)
  have n: "(\<forall>ev \<in> set (fst (run w)). nodelete ev) \<longleftrightarrow> (\<forall>ep. DeleteEndpoint ep \<notin> set (fst (run w)))"
    by (auto simp: nodelete_def)
  from script_deployed [of bucket prefix key w] f
  have d: "77 < line \<longrightarrow> (\<exists>fm. Deploy fm 1 ''ml.m4.xlarge'' \<in> set (fst (run w)))"
    by (simp add: deployed_def run_def)
  from u n d show "((\<forall>ep. DeleteEndpoint ep \<notin> set (fst (run w)))
      \<or> (line = 113 \<and> (\<exists>es ep. fst (run w) = es @ [DeleteEndpoint ep]
                          \<and> raises w (113, 0) (DeleteEndpoint ep) = Some e)))
     \<and> (77 < line \<and> line < 113 \<longrightarrow>
          (\<exists>fm. Deploy fm 1 ''ml.m4.xlarge'' \<in> set (fst (run w)))
          \<and> (\<forall>ep. DeleteEndpoint ep \<notin> set (fst (run w))))"
    by auto
qed

text \<open>A run in the stub environment where the first request to the endpoint (line 94) raises.\<close>

theorem endpoint_not_deleted_on_exception_witness:
  "snd (run (stub_env endpoint_down)) = Inl (94, ServiceError ''unavailable'')
   \<and> (\<exists>fm. Deploy fm 1 ''ml.m4.xlarge'' \<in> set (fst (run (stub_env endpoint_down))))
   \<and> (\<forall>ep. DeleteEndpoint ep \<notin> set (fst (run (stub_env endpoint_down))))"
proof -
  have f: "snd (run (stub_env endpoint_down)) = Inl (94, ServiceError ''unavailable'')"
    using stub_run_fails [of bucket prefix key] by (simp add: run_def)
  from endpoint_not_deleted_on_exception [of "stub_env endpoint_down" 94 "ServiceError ''unavailable''"] f
  show ?thesis by simp
qed

subsection \<open>Upload and training data locator (lines 47 to 49 and 75)\<close>

text \<open>
  C4. The claim: the locator of the upload step is s3://{bucket}/{prefix}/train/{key},
  the object is written under the key {prefix}/train/{key}, and the training job gets
  the locator of the upload step. The script builds the locator with a format string
  (line 49) but the key of the object with \<^verbatim>\<open>os.path.join\<close> (line 48). With the constants
  of the script on a Windows system the object is written under
  sagemaker/DEMO-1\train\recordio-pb-data (with two backslashes), which is not
  {prefix}/train/{key}, while the locator printed on line 50 and given to the training
  job on line 75 is s3://localide/sagemaker/DEMO-1/train/recordio-pb-data: a run in
  the stub environment on such a system makes this upload and submits this job. On a
  POSIX system the same constants give the key {prefix}/train/{key}.
\<close>

theorem object_key_differs_from_locator_on_windows:
  "object_key Nt prefix key
     = ''sagemaker/DEMO-1'' @ [CHR 0x5C] @ ''train'' @ [CHR 0x5C] @ ''recordio-pb-data''
   \<and> object_key Nt prefix key \<noteq> prefix @ ''/train/'' @ key
   \<and> object_key Posix prefix key = prefix @ ''/train/'' @ key
   \<and> s3_train_data bucket prefix key = ''s3://localide/sagemaker/DEMO-1/train/recordio-pb-data''
   \<and> (\<exists>buf. Upload ''localide''
               (''sagemaker/DEMO-1'' @ [CHR 0x5C] @ ''train'' @ [CHR 0x5C] @ ''recordio-pb-data'') buf
             \<in> set (fst (run (stub_env_on Nt (\<lambda>site ev. None)))))
   \<and> (\<exists>fm. Fit fm [(''train'', ''s3://localide/sagemaker/DEMO-1/train/recordio-pb-data'')]
             \<in> set (fst (run (stub_env_on Nt (\<lambda>site ev. None)))))"
proof -
  let ?w = "stub_env_on Nt (\<lambda>site ev. None)"
  have k: "object_key Nt prefix key
     = ''sagemaker/DEMO-1'' @ [CHR 0x5C] @ ''train'' @ [CHR 0x5C] @ ''recordio-pb-data''"
    by (rule object_key_nt_constants)
  have n: "object_key Nt prefix key \<noteq> prefix @ ''/train/'' @ key"
    unfolding k by (simp add: prefix_def key_def)
  have x: "object_key Posix prefix key = prefix @ ''/train/'' @ key"
    by (simp add: object_key_posix prefix_def key_def)
  have l: "s3_train_data bucket prefix key = ''s3://localide/sagemaker/DEMO-1/train/recordio-pb-data''"
    by (simp add: s3_train_data_def bucket_def prefix_def key_def)
  from stub_run_on_succeeds [of bucket prefix key Nt]
  obtain buf fm channels where
    ev: "Upload bucket (object_key Nt prefix key) buf \<in> set (fst (run ?w))"
        "Fit fm channels \<in> set (fst (run ?w))"
    by (auto simp: run_def)
  from script_expected [of bucket prefix key ?w] ev(2)
  have c: "channels = [(''train'', s3_train_data bucket prefix key)]"
    by (auto simp: run_def)
  have u: "\<exists>buf. Upload ''localide''
               (''sagemaker/DEMO-1'' @ [CHR 0x5C] @ ''train'' @ [CHR 0x5C] @ ''recordio-pb-data'') buf
             \<in> set (fst (run ?w))"
    using ev(1) unfolding k by (auto simp: bucket_def)
  have f: "\<exists>fm. Fit fm [(''train'', ''s3://localide/sagemaker/DEMO-1/train/recordio-pb-data'')]
             \<in> set (fst (run ?w))"
    using ev(2) unfolding c l by blast
  from k n x l u f show ?thesis by blast
qed

subsection \<open>The inference interface (lines 84 to 92 and 103)\<close>

lemma comprehension_getitem:
  assumes "length ls = length items"
    and "\<forall>i < length items. \<exists>kvi. items ! i = JObj kvi \<and> map_of kvi k = Some (ls ! i)"
  shows "comprehension (\<lambda>r. getitem r k) items = Inr ls"
  using assms
proof (induction items arbitrary: ls)
  case Nil
  then show ?case by simp
next
  case (Cons r items)
  then obtain l ls' where ls: "ls = l # ls'" by (cases ls) auto
  from Cons.prems(2) have "\<exists>kvi. (r # items) ! 0 = JObj kvi \<and> map_of kvi k = Some (ls ! 0)"
    by blast
  then obtain kvi where r: "r = JObj kvi" "map_of kvi k = Some l" using ls by auto
  have "\<forall>i < length items. \<exists>kvi. items ! i = JObj kvi \<and> map_of kvi k = Some (ls' ! i)"
  proof (intro allI impI)
    fix i assume "i < length items"
    then have "Suc i < length (r # items)" by simp
    with Cons.prems(2) have "\<exists>kvi. (r # items) ! Suc i = JObj kvi \<and> map_of kvi k = Some (ls ! Suc i)"
      by blast
    then show "\<exists>kvi. items ! i = JObj kvi \<and> map_of kvi k = Some (ls' ! i)"
      using ls by simp
  qed
  moreover have "length ls' = length items" using Cons.prems(1) ls by simp
  ultimately have "comprehension (\<lambda>r. getitem r k) items = Inr ls'"
    by (rule Cons.IH [rotated])
  then show ?case by (simp add: r ls)
qed

text \<open>
  C5. For every batch of feature rows the serialiser returns the JSON string of the
  object {"instances": [{"features": row_0}, {"features": row_1}, ...]}, one instance per
  row in the order of the rows; every request that a run sends to the endpoint has the
  content type application/json and such a string as its body; and from a response
  whose "predictions" entry is a list of objects, line 103 reads the "predicted_label"
  entry of each item, in order.
\<close>

theorem inference_wire_format:
  "fm_serializer dumps data
     = dumps (JObj [(''instances'', JArr (map (\<lambda>row. JObj [(''features'', JArr (map JNum row))]) data))])
   \<and> (\<forall>ev \<in> set (fst (script b p k w)). \<forall>ep ct body. ev = InvokeEndpoint ep ct body \<longrightarrow>
         ct = ''application/json'' \<and> (\<exists>rows. body = fm_serializer (json_dumps w) rows))
   \<and> (map_of kv ''predictions'' = Some (JArr items) \<and> length ls = length items
        \<and> (\<forall>i < length items. \<exists>kvi. items ! i = JObj kvi \<and> map_of kvi ''predicted_label'' = Some (ls ! i))
      \<longrightarrow> predicted_labels (JObj kv) = Inr ls)"
proof (intro conjI impI)
  show "fm_serializer dumps data
     = dumps (JObj [(''instances'', JArr (map (\<lambda>row. JObj [(''features'', JArr (map JNum row))]) data))])"
    by (simp add: fm_serializer_def fm_instances_map tolist_def)
  show "\<forall>ev \<in> set (fst (script b p k w)). \<forall>ep ct body. ev = InvokeEndpoint ep ct body \<longrightarrow>
         ct = ''application/json'' \<and> (\<exists>rows. body = fm_serializer (json_dumps w) rows)"
    using script_expected [of b p k w] by auto
next
  assume a: "map_of kv ''predictions'' = Some (JArr items) \<and> length ls = length items
        \<and> (\<forall>i < length items. \<exists>kvi. items ! i = JObj kvi \<and> map_of kvi ''predicted_label'' = Some (ls ! i))"
  then have "comprehension (\<lambda>r. getitem r ''predicted_label'') items = Inr ls"
    by (intro comprehension_getitem) simp_all
  with a show "predicted_labels (JObj kv) = Inr ls"
    by (simp add: predicted_labels_def)
qed

text \<open>
  A response with two items, the second with a further field; and a run in the stub
  environment, which sends a request with the JSON content type.
\<close>

theorem inference_wire_format_witness:
  "predicted_labels
     (JObj [(''predictions'',
             JArr [JObj [(''predicted_label'', JNum 1)],
                   JObj [(''score'', JNum 0), (''predicted_label'', JNum 0)]])])
     = Inr [JNum 1, JNum 0]
   \<and> (\<exists>ep body. InvokeEndpoint ep ''application/json'' body
                   \<in> set (fst (run (stub_env (\<lambda>site ev. None)))))"
proof -
  note t = inference_wire_format
    [of _ _ bucket prefix key "stub_env (\<lambda>site ev. None)"
        "[(''predictions'',
             JArr [JObj [(''predicted_label'', JNum 1)],
                   JObj [(''score'', JNum 0), (''predicted_label'', JNum 0)]])]"
        "[JObj [(''predicted_label'', JNum 1)],
                   JObj [(''score'', JNum 0), (''predicted_label'', JNum 0)]]"
        "[JNum 1, JNum 0]"]
  from t have a: "predicted_labels
     (JObj [(''predictions'',
             JArr [JObj [(''predicted_label'', JNum 1)],
                   JObj [(''score'', JNum 0), (''predicted_label'', JNum 0)]])])
     = Inr [JNum 1, JNum 0]"
    by (simp add: less_Suc_eq)
  from stub_run_succeeds [of bucket prefix key]
  obtain ep ct body where
    ev: "InvokeEndpoint ep ct body \<in> set (fst (run (stub_env (\<lambda>site ev. None))))"
    by (auto simp: run_def)
  from t ev have "ct = ''application/json''"
    by (auto simp: run_def)
  with ev a show ?thesis by blast
qed

subsection \<open>The cast to float32\<close>



lemma round_half_even_of_int [simp]: "round_half_even (of_int n) = n"
  by (simp add: round_half_even_def)



lemma floor_log2_bounds:
  assumes "x \<noteq> 0"
  shows "2 powr of_int \<lfloor>log 2 \<bar>x\<bar>\<rfloor> \<le> \<bar>x\<bar>" "\<bar>x\<bar> < 2 powr of_int (\<lfloor>log 2 \<bar>x\<bar>\<rfloor> + 1)"
  using floor_log_eq_powr_iff [of "\<bar>x\<bar>" 2 "\<lfloor>log 2 \<bar>x\<bar>\<rfloor>"] assms by simp_all






lemma real_abs_le: "\<bar>n\<bar> \<le> k \<Longrightarrow> \<bar>real_of_int n\<bar> \<le> real_of_int k"
  by linarith

lemma real_abs_less: "\<bar>n\<bar> < k \<Longrightarrow> \<bar>real_of_int n\<bar> < real_of_int k"
  by linarith




lemma is_float32_0 [simp]: "is_float32 0"
  unfolding is_float32_def by (rule exI [of _ 0], rule exI [of _ 0]) simp


lemma is_float32_le_max:
  assumes "is_float32 x"
  shows "\<bar>x\<bar> \<le> float32_max"
proof -
  from assms obtain m e :: int where
    m: "\<bar>m\<bar> < 2 ^ 24" and e: "e \<le> 104" and x: "x = of_int m * 2 powr of_int e"
    unfolding is_float32_def by blast
  from m have "\<bar>m\<bar> \<le> 2 ^ 24 - 1" by simp
  then have "\<bar>real_of_int m\<bar> \<le> real_of_int (2 ^ 24 - 1)" by (rule real_abs_le)
  then have a: "\<bar>real_of_int m\<bar> \<le> 2 ^ 24 - 1" by simp
  from e have "real_of_int e \<le> 104" by simp
  then have "(2::real) powr of_int e \<le> 2 powr 104" by (rule powr_mono) simp
  then have b: "(2::real) powr of_int e \<le> 2 ^ 104" by simp
  have "\<bar>x\<bar> = \<bar>real_of_int m\<bar> * 2 powr of_int e" by (simp add: x abs_mult)
  also have "\<dots> \<le> (2 ^ 24 - 1) * 2 ^ 104"
    using a b by (intro mult_mono) simp_all
  finally show ?thesis by (simp add: float32_max_def)
qed

lemma float32_round_fixes_float32:
  assumes "is_float32 x"
  shows "float32_round x = x"
proof (cases "x = 0")
  case True
  then show ?thesis by (simp add: float32_round_def)
next
  case False
  from assms obtain m e0 :: int where
    m: "\<bar>m\<bar> < 2 ^ 24" and e0: "- 149 \<le> e0" and x: "x = of_int m * 2 powr of_int e0"
    unfolding is_float32_def by blast
  define k where "k = \<lfloor>log 2 \<bar>x\<bar>\<rfloor>"
  define e where "e = float32_exponent x"
  have ek: "e = max (- 149) (k - 23)" by (simp add: e_def k_def float32_exponent_def)
  have r: "float32_round x = of_int (round_half_even (x / 2 powr of_int e)) * 2 powr of_int e"
    using False by (simp add: float32_round_def e_def)
  have kx: "2 powr of_int k \<le> \<bar>x\<bar>"
    unfolding k_def by (rule floor_log2_bounds(1) [OF False])
  from m have "\<bar>real_of_int m\<bar> < real_of_int (2 ^ 24)" by (rule real_abs_less)
  then have m': "\<bar>real_of_int m\<bar> < 2 ^ 24" by simp
  have "\<bar>x\<bar> = \<bar>real_of_int m\<bar> * 2 powr of_int e0" by (simp add: x abs_mult)
  also have "\<dots> < 2 ^ 24 * 2 powr of_int e0"
    using m' by (intro mult_strict_right_mono) simp_all
  also have "\<dots> = 2 powr 24 * 2 powr of_int e0" by simp
  also have "\<dots> = 2 powr (24 + of_int e0)" by (simp only: powr_add)
  finally have "(2::real) powr of_int k < 2 powr (24 + of_int e0)"
    using kx by linarith
  then have "real_of_int k < 24 + of_int e0" by (rule powr_less_cancel) simp
  then have "k < 24 + e0" by linarith
  with e0 have le: "e \<le> e0" by (simp add: ek)
  define d where "d = nat (e0 - e)"
  have e0': "real_of_int e0 = of_int e + real d" using le by (simp add: d_def)
  have "(2::real) powr of_int e0 = 2 powr of_int e * 2 powr real d"
    by (simp only: e0' powr_add)
  also have "\<dots> = 2 powr of_int e * 2 ^ d" by (simp add: powr_realpow)
  finally have p: "(2::real) powr of_int e0 = 2 powr of_int e * 2 ^ d" .
  have q: "x = of_int (m * 2 ^ d) * 2 powr of_int e"
    by (simp add: x p)
  have "x / 2 powr of_int e = of_int (m * 2 ^ d)"
    by (subst q) simp
  then have "round_half_even (x / 2 powr of_int e) = m * 2 ^ d"
    by (simp only: round_half_even_of_int)
  then show ?thesis using r q by simp
qed

lemma astype_float32_fixes_float32: "is_float32 x \<Longrightarrow> astype_float32 x = F32 x"
  using is_float32_le_max [of x] by (simp add: astype_float32_def float32_round_fixes_float32)


lemma is_float32_1 [simp]: "is_float32 1"
  unfolding is_float32_def by (rule exI [of _ 1], rule exI [of _ 0]) simp

lemma astype_float32_0 [simp]: "astype_float32 0 = F32 0"
  by (rule astype_float32_fixes_float32) simp

lemma astype_float32_1 [simp]: "astype_float32 1 = F32 1"
  by (rule astype_float32_fixes_float32) simp

subsection \<open>Encoding the training split (lines 36 to 40 and 70)\<close>


lemma vectors_Inr: "vectors train_x = Inr M \<Longrightarrow> M = map (map astype_float32) train_x"
  by (auto simp: vectors_def split: sum.splits simp: np_array_def split: if_splits)

lemma labels_nth: "i < length ls \<Longrightarrow> labels ls ! i = (if ls ! i = 0 then 1 else 0)"
  by (simp add: labels_def np_where_def eq_zero_def)

lemma length_labels [simp]: "length (labels ls) = length ls"
  by (simp add: labels_def np_where_def eq_zero_def)



text \<open>
  C10. For a training split with as many labels as feature rows, the binarised label
  array has exactly one entry per encoded feature row, entry i is the binarisation of
  the label of sample i and row i is the encoding of the features of sample i; and
  whenever a run calls the record serialiser, it passes exactly this matrix and this
  label array.
\<close>

theorem encoded_split_aligned:
  "(length (fst train_set) = length (snd train_set) \<and> vectors (fst train_set) = Inr M \<longrightarrow>
      length (labels (snd train_set)) = length M
      \<and> (\<forall>i < length M.
            labels (snd train_set) ! i = (if snd train_set ! i = 0 then 1 else 0)
          \<and> M ! i = map astype_float32 (fst train_set ! i)))
   \<and> (\<forall>ev \<in> set (fst (script b p k w)). \<forall>V L. ev = WriteTensor V L \<longrightarrow>
         vectors (fst (fst (pickled w))) = Inr V \<and> L = labels (snd (fst (pickled w))))"
proof (intro conjI impI)
  assume a: "length (fst train_set) = length (snd train_set) \<and> vectors (fst train_set) = Inr M"
  then have m: "M = map (map astype_float32) (fst train_set)"
    by (auto dest: vectors_Inr)
  show "length (labels (snd train_set)) = length M" using a m by simp
  show "\<forall>i < length M.
            labels (snd train_set) ! i = (if snd train_set ! i = 0 then 1 else 0)
          \<and> M ! i = map astype_float32 (fst train_set ! i)"
    using a m by (simp add: labels_nth)
next
  show "\<forall>ev \<in> set (fst (script b p k w)). \<forall>V L. ev = WriteTensor V L \<longrightarrow>
         vectors (fst (fst (pickled w))) = Inr V \<and> L = labels (snd (fst (pickled w)))"
    using script_expected [of b p k w] by auto
qed

text \<open>A run in the stub environment: the record serialiser gets 31 rows and 31 labels.\<close>

theorem encoded_split_aligned_witness:
  "\<exists>V L. WriteTensor V L \<in> set (fst (run (stub_env (\<lambda>site ev. None))))
      \<and> length L = 31 \<and> length V = 31 \<and> L ! 30 = 1 \<and> V ! 30 = replicate 784 (F32 0)"
proof -
  let ?w = "stub_env (\<lambda>site ev. None)"
  have p: "fst (pickled ?w) = (replicate 31 (replicate 784 0), replicate 31 0)"
    by (simp add: stub_env_def stub_env_on_def stub_dataset_def)
  from stub_run_succeeds [of bucket prefix key]
  obtain V L where ev: "WriteTensor V L \<in> set (fst (run ?w))"
    by (auto simp: run_def)
  note t = encoded_split_aligned [of "fst (pickled ?w)" V bucket prefix key ?w]
  from t ev have v: "vectors (fst (fst (pickled ?w))) = Inr V" "L = labels (snd (fst (pickled ?w)))"
    by (auto simp: run_def)
  have "length (fst (fst (pickled ?w))) = length (snd (fst (pickled ?w)))"
    by (simp add: p)
  with t v(1) have al: "length (labels (snd (fst (pickled ?w)))) = length V"
      "\<forall>i < length V.
            labels (snd (fst (pickled ?w))) ! i = (if snd (fst (pickled ?w)) ! i = 0 then 1 else 0)
          \<and> V ! i = map astype_float32 (fst (fst (pickled ?w)) ! i)"
    by blast+
  have "length L = 31" using v(2) by (simp add: p)
  moreover have lv: "length V = 31" using al(1) by (simp add: p)
  moreover have "L ! 30 = 1 \<and> V ! 30 = replicate 784 (F32 0)"
  proof -
    have "(30::nat) < length V" using lv by simp
    with al(2) have "labels (snd (fst (pickled ?w))) ! 30
          = (if snd (fst (pickled ?w)) ! 30 = 0 then 1 else 0)
        \<and> V ! 30 = map astype_float32 (fst (fst (pickled ?w)) ! 30)"
      by blast
    then show ?thesis using v(2) by (simp add: p)
  qed
  ultimately show ?thesis using ev by blast
qed

end
